theory Spec2Isabelle
  imports Main
begin

section \<open>The farmer API of chia/farmer/farmer_api.py\<close>

text \<open>
  A shallow embedding of the class \<open>FarmerAPI\<close>. Every handler takes the farmer's state
  and returns the outcome of the call (the value returned, or the exception raised)
  together with the state as the call leaves it: what a handler wrote before it raised
  stays written, as in Python. An \<open>assert\<close> raises \<open>AssertionError\<close>, a missing
  dictionary key \<open>KeyError\<close>, an index out of range \<open>IndexError\<close>.

  Byte strings (hashes, keys, signatures) are \<open>string\<close>s; they are only compared and
  stored. The counters of \<open>number_of_responses\<close> are Python integers (\<open>int\<close>); the
  \<open>uint64\<close> values (difficulties, iteration counts, time stamps) are only compared
  and stored, never added to, and are natural numbers. The clock \<open>time.time()\<close> is the
  argument \<open>now\<close> of a handler. A log entry is the level of the call on
  \<open>farmer.log\<close> and the constant part of its text. A handler is taken as one step:
  what a harvester or the pool answers to a call made inside it is a parameter.
\<close>

subsection \<open>Protocol messages\<close>

type_synonym bytes = string
type_synonym bytes32 = string
type_synonym G1Element = string
type_synonym G2Element = string
type_synonym PrivateKey = string

record ProofOfSpace =
  pos_challenge :: bytes32
  pos_pool_public_key :: "G1Element option"
  pos_pool_contract_puzzle_hash :: "bytes32 option"
  pos_plot_public_key :: G1Element
  pos_size :: nat
  pos_proof :: bytes

text \<open>farmer_protocol.NewSignagePoint; the registry \<open>sps\<close> stores these values.\<close>

record NewSignagePoint =
  sp_challenge_hash :: bytes32
  sp_challenge_chain_sp :: bytes32
  sp_reward_chain_sp :: bytes32
  sp_difficulty :: nat
  sp_sub_slot_iters :: nat
  sp_signage_point_index :: nat

record NewSignagePointHarvester =
  nh_challenge_hash :: bytes32
  nh_difficulty :: nat
  nh_sub_slot_iters :: nat
  nh_signage_point_index :: nat
  nh_sp_hash :: bytes32

record NewProofOfSpace =
  np_challenge_hash :: bytes32
  np_sp_hash :: bytes32
  np_plot_identifier :: string
  np_proof :: ProofOfSpace
  np_signage_point_index :: nat

record RequestSignatures =
  rq_plot_identifier :: string
  rq_challenge_hash :: bytes32
  rq_sp_hash :: bytes32
  rq_messages :: "bytes32 list"

record RespondSignatures =
  rs_plot_identifier :: string
  rs_challenge_hash :: bytes32
  rs_sp_hash :: bytes32
  rs_local_pk :: G1Element
  rs_farmer_pk :: G1Element
  rs_message_signatures :: "(bytes32 \<times> G2Element) list"

record RequestSignedValues =
  rv_quality_string :: bytes32
  rv_foliage_block_data_hash :: bytes32
  rv_foliage_transaction_block_hash :: bytes32

record PoolTarget =
  pt_puzzle_hash :: bytes32
  pt_max_height :: nat

record DeclareProofOfSpace =
  dp_challenge_hash :: bytes32
  dp_challenge_chain_sp :: bytes32
  dp_signage_point_index :: nat
  dp_reward_chain_sp :: bytes32
  dp_proof_of_space :: ProofOfSpace
  dp_challenge_chain_sp_signature :: G2Element
  dp_reward_chain_sp_signature :: G2Element
  dp_farmer_puzzle_hash :: bytes32
  dp_pool_target :: "PoolTarget option"
  dp_pool_signature :: "G2Element option"

record SignedValues =
  sv_quality_string :: bytes32
  sv_foliage_block_data_signature :: G2Element
  sv_foliage_transaction_block_signature :: G2Element

text \<open>
  og_pool_protocol.PartialPayload and SubmitPartial: the fields in the order in which
  \<open>process_new_proof_of_space_for_pool\<close> passes them to the constructors.
\<close>

record PartialPayload =
  pp_proof_of_space :: ProofOfSpace
  pp_difficulty :: nat
  pp_sp_hash :: bytes32
  pp_end_of_sub_slot :: bool
  pp_payout_address :: string

record SubmitPartial =
  sbp_payload :: PartialPayload
  sbp_aggregate_signature :: G2Element

datatype message =
    RequestSignaturesMsg RequestSignatures
  | DeclareProofOfSpaceMsg DeclareProofOfSpace
  | SignedValuesMsg SignedValues
  | NewSignagePointHarvesterMsg NewSignagePointHarvester

datatype NodeType = FULL_NODE | HARVESTER

subsection \<open>Outcomes, the log and the calls that leave the farmer\<close>

datatype py_error = KeyError | AssertionError | IndexError

datatype 'a outcome = Returned 'a | Raised py_error

datatype log_level = DEBUG | INFO | WARNING | ERROR

type_synonym log_entry = "log_level \<times> string"

text \<open>
  The calls on collaborators, in the order in which a handler makes them:
  \<open>server.send_to_all\<close>, \<open>server.send_to_specific\<close>, \<open>farmer.state_changed\<close>,
  \<open>peer.request_signatures\<close> and \<open>pool_api_client.submit_partial\<close>.
\<close>

datatype effect =
    SendToAll message NodeType
  | SendToSpecific message bytes32
  | StateChanged string
  | PeerRequestSignatures bytes32 RequestSignatures
  | PoolSubmitPartial SubmitPartial

subsection \<open>The farmer's state\<close>

record ConsensusConstants =
  DIFFICULTY_CONSTANT_FACTOR :: nat

text \<open>
  The attributes of \<open>Farmer\<close> that the handlers read and write. The class itself is not
  part of the file: \<open>private_keys\<close> is what \<open>get_private_keys()\<close> returns,
  \<open>pooling_enabled\<close> what \<open>is_pooling_enabled()\<close> returns. \<open>log\<close> collects the calls
  on \<open>farmer.log\<close>, \<open>effects\<close> the calls on the server, the peer and the pool client.
\<close>

record farmer =
  number_of_responses :: "bytes32 \<rightharpoonup> int"
  cache_add_time :: "bytes32 \<rightharpoonup> nat"
  sps :: "bytes32 \<rightharpoonup> NewSignagePoint list"
  proofs_of_space :: "bytes32 \<rightharpoonup> (string \<times> ProofOfSpace) list"
  quality_str_to_identifiers :: "bytes32 \<rightharpoonup> (string \<times> bytes32 \<times> bytes32 \<times> bytes32)"
  private_keys :: "PrivateKey list"
  pool_sks_map :: "bytes \<rightharpoonup> PrivateKey"
  pool_target :: bytes32
  farmer_target :: bytes32
  pool_difficulty :: nat
  pool_sub_slot_iters :: nat
  iters_limit :: nat
  pool_payout_address :: string
  pooling_enabled :: bool
  last_pool_partial_submit_timestamp :: nat
  constants :: ConsensusConstants
  log :: "log_entry list"
  effects :: "effect list"

definition log_add :: "log_level \<Rightarrow> string \<Rightarrow> farmer \<Rightarrow> farmer" where
  "log_add lvl txt s = s\<lparr>log := log s @ [(lvl, txt)]\<rparr>"

definition emit :: "effect \<Rightarrow> farmer \<Rightarrow> farmer" where
  "emit e s = s\<lparr>effects := effects s @ [e]\<rparr>"

subsection \<open>new_signage_point\<close>

definition new_signage_point ::
  "nat \<Rightarrow> farmer \<Rightarrow> NewSignagePoint \<Rightarrow> message option outcome \<times> farmer" where
  "new_signage_point now s nsp =
    (let difficulty = (if pooling_enabled s then pool_difficulty s else sp_difficulty nsp);
         sub_slot_iters =
           (if pooling_enabled s then pool_sub_slot_iters s else sp_sub_slot_iters nsp);
         msg = NewSignagePointHarvesterMsg
           \<lparr>nh_challenge_hash = sp_challenge_hash nsp,
            nh_difficulty = difficulty,
            nh_sub_slot_iters = sub_slot_iters,
            nh_signage_point_index = sp_signage_point_index nsp,
            nh_sp_hash = sp_challenge_chain_sp nsp\<rparr>;
         s1 = emit (SendToAll msg HARVESTER) s;
         key = sp_challenge_chain_sp nsp;
         s2 = (if sps s1 key = None then s1\<lparr>sps := (sps s1)(key \<mapsto> [])\<rparr> else s1)
     in case sps s2 key of
          None \<Rightarrow> (Raised KeyError, s2)
        | Some bucket \<Rightarrow>
            if nsp \<in> set bucket
            then (Returned None, log_add DEBUG ''Duplicate signage point'' s2)
            else
              (let s3 = s2\<lparr>sps := (sps s2)(key \<mapsto> bucket @ [nsp])\<rparr>;
                   s4 = s3\<lparr>cache_add_time := (cache_add_time s3)(key \<mapsto> now)\<rparr>;
                   s5 = emit (StateChanged ''new_signage_point'') s4
               in (Returned None, s5)))"

subsection \<open>request_signed_values\<close>

definition request_signed_values ::
  "farmer \<Rightarrow> RequestSignedValues \<Rightarrow> message option outcome \<times> farmer" where
  "request_signed_values s full_node_request =
    (case quality_str_to_identifiers s (rv_quality_string full_node_request) of
       None \<Rightarrow> (Returned None, log_add ERROR ''Do not have quality string'' s)
     | Some (plot_identifier, challenge_hash, sp_hash, node_id) \<Rightarrow>
         (let request =
                \<lparr>rq_plot_identifier = plot_identifier,
                 rq_challenge_hash = challenge_hash,
                 rq_sp_hash = sp_hash,
                 rq_messages =
                   [rv_foliage_block_data_hash full_node_request,
                    rv_foliage_transaction_block_hash full_node_request]\<rparr>
          in (Returned None, emit (SendToSpecific (RequestSignaturesMsg request) node_id) s)))"

subsection \<open>Collaborators outside the file\<close>

text \<open>
  What \<open>peer.request_signatures\<close> and \<open>pool_api_client.submit_partial\<close> come back
  with. A pool response is a dictionary: a key that is absent is \<open>None\<close> here, and
  reading it raises \<open>KeyError\<close>.
\<close>

record WSChiaConnection =
  peer_node_id :: bytes32

datatype harvester_reply = RespondSignaturesReply RespondSignatures | OtherReply

record pool_response =
  pr_error_code :: "int option"
  pr_error_message :: "string option"
  pr_current_difficulty :: "nat option"

datatype submit_result = SubmitFailed | SubmitResponse pool_response

text \<open>
  The functions the handlers call that are defined elsewhere (proof verification, the
  iteration formulas of the consensus rules, the BLS scheme, the payload hash, the
  network peers). They are parameters of the model: every theorem below holds for each
  choice of them. \<open>AugSchemeMPL_sign_prepend\<close> is \<open>AugSchemeMPL.sign\<close> with three
  arguments, \<open>AugSchemeMPL_sign\<close> with two.
\<close>

record ext =
  verify_and_get_quality_string ::
    "ProofOfSpace \<Rightarrow> ConsensusConstants \<Rightarrow> bytes32 \<Rightarrow> bytes32 \<Rightarrow> bytes32 option"
  calculate_iterations_quality :: "nat \<Rightarrow> bytes32 \<Rightarrow> nat \<Rightarrow> nat \<Rightarrow> bytes32 \<Rightarrow> nat"
  calculate_sp_interval_iters :: "ConsensusConstants \<Rightarrow> nat \<Rightarrow> nat"
  get_g1 :: "PrivateKey \<Rightarrow> G1Element"
  generate_plot_public_key :: "G1Element \<Rightarrow> G1Element \<Rightarrow> G1Element"
  AugSchemeMPL_sign_prepend :: "PrivateKey \<Rightarrow> bytes \<Rightarrow> G1Element \<Rightarrow> G2Element"
  AugSchemeMPL_sign :: "PrivateKey \<Rightarrow> bytes \<Rightarrow> G2Element"
  AugSchemeMPL_aggregate :: "G2Element list \<Rightarrow> G2Element"
  AugSchemeMPL_verify :: "G1Element \<Rightarrow> bytes \<Rightarrow> G2Element \<Rightarrow> bool"
  get_hash :: "PartialPayload \<Rightarrow> bytes32"
  pool_target_bytes :: "PoolTarget \<Rightarrow> bytes"
  peer_request_signatures :: "bytes32 \<Rightarrow> RequestSignatures \<Rightarrow> harvester_reply"
  pool_submit_partial :: "SubmitPartial \<Rightarrow> submit_result"

subsection \<open>process_new_proof_of_space_for_pool\<close>

text \<open>
  The loop over the private keys (lines 361 to 368): it has no \<open>break\<close>, so the last
  matching key decides \<open>plot_signature\<close>, and a failed assertion ends it.
\<close>

fun pool_plot_signature ::
  "ext \<Rightarrow> RespondSignatures \<Rightarrow> ProofOfSpace \<Rightarrow> bytes32 \<Rightarrow> G2Element \<Rightarrow> G2Element option \<Rightarrow>
   PrivateKey list \<Rightarrow> py_error + G2Element option" where
  "pool_plot_signature x response pospace m_to_sign harv_sig plot_signature [] =
     Inr plot_signature"
| "pool_plot_signature x response pospace m_to_sign harv_sig plot_signature (sk # sks) =
     (let pk = get_g1 x sk in
      if pk = rs_farmer_pk response then
        (let agg_pk = generate_plot_public_key x (rs_local_pk response) pk in
         if agg_pk \<noteq> pos_plot_public_key pospace then Inl AssertionError
         else
           (let sig_farmer = AugSchemeMPL_sign_prepend x sk m_to_sign agg_pk;
                new_signature = AugSchemeMPL_aggregate x [sig_farmer, harv_sig]
            in if AugSchemeMPL_verify x agg_pk m_to_sign new_signature
               then pool_plot_signature x response pospace m_to_sign harv_sig
                      (Some new_signature) sks
               else Inl AssertionError))
      else pool_plot_signature x response pospace m_to_sign harv_sig plot_signature sks)"

text \<open>
  Lines 322 to 380, up to the call of \<open>submit_partial\<close>: either the handler is over
  (\<open>Inl\<close>), or the partial has been handed to the pool client (\<open>Inr\<close>, with the state
  at that moment).
\<close>

definition pool_partial_prepare ::
  "ext \<Rightarrow> nat \<Rightarrow> farmer \<Rightarrow> NewProofOfSpace \<Rightarrow> WSChiaConnection \<Rightarrow> G1Element \<Rightarrow> bytes32 \<Rightarrow>
   (message option outcome \<times> farmer) + (SubmitPartial \<times> farmer)" where
  "pool_partial_prepare x now s new_proof_of_space peer pool_public_key
      computed_quality_string =
    (let required_iters =
           calculate_iterations_quality x (DIFFICULTY_CONSTANT_FACTOR (constants s))
             computed_quality_string (pos_size (np_proof new_proof_of_space))
             (pool_difficulty s) (np_sp_hash new_proof_of_space)
     in if required_iters \<ge> iters_limit s
        then Inl (Returned None, log_add INFO ''Proof of space not good enough for pool difficulty'' s)
        else
          (let is_eos = (np_signage_point_index new_proof_of_space = 0);
               payload =
                 \<lparr>pp_proof_of_space = np_proof new_proof_of_space,
                  pp_difficulty = pool_difficulty s,
                  pp_sp_hash = np_sp_hash new_proof_of_space,
                  pp_end_of_sub_slot = is_eos,
                  pp_payout_address = pool_payout_address s\<rparr>;
               m_to_sign = get_hash x payload;
               request =
                 \<lparr>rq_plot_identifier = np_plot_identifier new_proof_of_space,
                  rq_challenge_hash = np_challenge_hash new_proof_of_space,
                  rq_sp_hash = np_sp_hash new_proof_of_space,
                  rq_messages = [m_to_sign]\<rparr>;
               s1 = emit (PeerRequestSignatures (peer_node_id peer) request) s
           in case peer_request_signatures x (peer_node_id peer) request of
                OtherReply \<Rightarrow>
                  Inl (Returned None, log_add ERROR ''Invalid response from harvester'' s1)
              | RespondSignaturesReply response \<Rightarrow>
                  (case rs_message_signatures response of
                     [(signed_message, harv_sig)] \<Rightarrow>
                       (case pool_plot_signature x response (np_proof new_proof_of_space)
                               m_to_sign harv_sig None (private_keys s1) of
                          Inl e \<Rightarrow> Inl (Raised e, s1)
                        | Inr plot_signature \<Rightarrow>
                            (case pool_sks_map s1 pool_public_key of
                               None \<Rightarrow> Inl (Raised KeyError, s1)
                             | Some pool_sk \<Rightarrow>
                                 (let authentication_signature =
                                        AugSchemeMPL_sign x pool_sk m_to_sign
                                  in case plot_signature of
                                       None \<Rightarrow> Inl (Raised AssertionError, s1)
                                     | Some plot_sig \<Rightarrow>
                                         (let agg_sig = AugSchemeMPL_aggregate x
                                                [plot_sig, authentication_signature];
                                              submit_partial =
                                                \<lparr>sbp_payload = payload,
                                                 sbp_aggregate_signature = agg_sig\<rparr>;
                                              s2 = log_add DEBUG ''Submitting partial ..'' s1;
                                              s3 = s2\<lparr>last_pool_partial_submit_timestamp := now\<rparr>;
                                              s4 = emit (PoolSubmitPartial submit_partial) s3
                                          in Inr (submit_partial, s4)))))
                   | _ \<Rightarrow> Inl (Raised AssertionError, s1))))"

text \<open>Lines 381 to 397: what the handler does with the outcome of \<open>submit_partial\<close>.\<close>

definition pool_partial_response ::
  "farmer \<Rightarrow> submit_result \<Rightarrow> message option outcome \<times> farmer" where
  "pool_partial_response s res =
    (case res of
       SubmitFailed \<Rightarrow> (Returned None, log_add ERROR ''Error submitting partial to pool'' s)
     | SubmitResponse submit_partial_response \<Rightarrow>
         (let s1 = log_add DEBUG ''Pool response'' s
          in case pr_error_code submit_partial_response of
               Some error_code \<Rightarrow>
                 if error_code = 5 then
                   (case pr_current_difficulty submit_partial_response of
                      None \<Rightarrow> (Raised KeyError, s1)
                    | Some current_difficulty \<Rightarrow>
                        (Returned None,
                         (log_add INFO ''Difficulty too low, adjusting to pool difficulty'' s1)
                           \<lparr>pool_difficulty := current_difficulty\<rparr>))
                 else
                   (case pr_error_message submit_partial_response of
                      None \<Rightarrow> (Raised KeyError, s1)
                    | Some error_message \<Rightarrow>
                        (Returned None, log_add ERROR ''Error in pooling'' s1))
             | None \<Rightarrow>
                 (case pr_current_difficulty submit_partial_response of
                    None \<Rightarrow> (Raised KeyError, s1)
                  | Some current_difficulty \<Rightarrow>
                      (Returned None, s1\<lparr>pool_difficulty := current_difficulty\<rparr>))))"

definition process_new_proof_of_space_for_pool ::
  "ext \<Rightarrow> nat \<Rightarrow> farmer \<Rightarrow> NewProofOfSpace \<Rightarrow> WSChiaConnection \<Rightarrow> G1Element \<Rightarrow> bytes32 \<Rightarrow>
   message option outcome \<times> farmer" where
  "process_new_proof_of_space_for_pool x now s new_proof_of_space peer pool_public_key
      computed_quality_string =
    (case pool_partial_prepare x now s new_proof_of_space peer pool_public_key
            computed_quality_string of
       Inl res \<Rightarrow> res
     | Inr (submit_partial, s1) \<Rightarrow>
         pool_partial_response s1 (pool_submit_partial x submit_partial))"

subsection \<open>new_proof_of_space\<close>

text \<open>
  The body of the loop \<open>for sp in sps\<close> (lines 60 to 122). Each of its paths ends in a
  \<open>return\<close> or leaves through an exception of the pool path.
\<close>

definition new_proof_of_space_body ::
  "ext \<Rightarrow> nat \<Rightarrow> farmer \<Rightarrow> NewProofOfSpace \<Rightarrow> WSChiaConnection \<Rightarrow> NewSignagePoint \<Rightarrow>
   message option outcome \<times> farmer" where
  "new_proof_of_space_body x now s new_proof_of_space peer sp =
    (case verify_and_get_quality_string x (np_proof new_proof_of_space) (constants s)
            (np_challenge_hash new_proof_of_space) (np_sp_hash new_proof_of_space) of
       None \<Rightarrow> (Returned None, log_add ERROR ''Invalid proof of space'' s)
     | Some computed_quality_string \<Rightarrow>
         (case number_of_responses s (np_sp_hash new_proof_of_space) of
            None \<Rightarrow> (Raised KeyError, s)
          | Some n \<Rightarrow>
              (let s1 = s\<lparr>number_of_responses :=
                          (number_of_responses s)(np_sp_hash new_proof_of_space \<mapsto> n + 1)\<rparr>;
                   required_iters =
                     calculate_iterations_quality x (DIFFICULTY_CONSTANT_FACTOR (constants s1))
                       computed_quality_string (pos_size (np_proof new_proof_of_space))
                       (sp_difficulty sp) (np_sp_hash new_proof_of_space)
               in if required_iters < calculate_sp_interval_iters x (constants s1)
                                        (sp_sub_slot_iters sp)
                  then
                    (let request =
                           \<lparr>rq_plot_identifier = np_plot_identifier new_proof_of_space,
                            rq_challenge_hash = np_challenge_hash new_proof_of_space,
                            rq_sp_hash = np_sp_hash new_proof_of_space,
                            rq_messages = [sp_challenge_chain_sp sp, sp_reward_chain_sp sp]\<rparr>;
                         entry = (np_plot_identifier new_proof_of_space,
                                  np_proof new_proof_of_space);
                         s2 = s1\<lparr>proofs_of_space :=
                                (proofs_of_space s1)(np_sp_hash new_proof_of_space \<mapsto>
                                  (case proofs_of_space s1 (np_sp_hash new_proof_of_space) of
                                     None \<Rightarrow> [entry]
                                   | Some recorded \<Rightarrow> recorded @ [entry]))\<rparr>;
                         s3 = s2\<lparr>cache_add_time :=
                                (cache_add_time s2)(np_sp_hash new_proof_of_space \<mapsto> now)\<rparr>;
                         s4 = s3\<lparr>quality_str_to_identifiers :=
                                (quality_str_to_identifiers s3)(computed_quality_string \<mapsto>
                                  (np_plot_identifier new_proof_of_space,
                                   np_challenge_hash new_proof_of_space,
                                   np_sp_hash new_proof_of_space,
                                   peer_node_id peer))\<rparr>;
                         s5 = s4\<lparr>cache_add_time :=
                                (cache_add_time s4)(computed_quality_string \<mapsto> now)\<rparr>
                     in (Returned (Some (RequestSignaturesMsg request)), s5))
                  else
                    (case pos_pool_public_key (np_proof new_proof_of_space) of
                       Some pool_public_key \<Rightarrow>
                         if pooling_enabled s1 then
                           (case process_new_proof_of_space_for_pool x now s1 new_proof_of_space
                                   peer pool_public_key computed_quality_string of
                              (Raised e, s2) \<Rightarrow> (Raised e, s2)
                            | (Returned r, s2) \<Rightarrow> (Returned None, s2))
                         else (Returned None, s1)
                     | None \<Rightarrow> (Returned None, s1)))))"

text \<open>
  The loop itself: over an empty bucket it does nothing and the handler returns
  \<open>None\<close>; otherwise the body runs for the first entry and ends the handler.
\<close>

fun new_proof_of_space_loop ::
  "ext \<Rightarrow> nat \<Rightarrow> farmer \<Rightarrow> NewProofOfSpace \<Rightarrow> WSChiaConnection \<Rightarrow> NewSignagePoint list \<Rightarrow>
   message option outcome \<times> farmer" where
  "new_proof_of_space_loop x now s new_proof_of_space peer [] = (Returned None, s)"
| "new_proof_of_space_loop x now s new_proof_of_space peer (sp # rest) =
     new_proof_of_space_body x now s new_proof_of_space peer sp"

definition max_pos_per_sp :: int where
  "max_pos_per_sp = 5"

definition new_proof_of_space ::
  "ext \<Rightarrow> nat \<Rightarrow> farmer \<Rightarrow> NewProofOfSpace \<Rightarrow> WSChiaConnection \<Rightarrow>
   message option outcome \<times> farmer" where
  "new_proof_of_space x now s new_pos peer =
    (let key = np_sp_hash new_pos;
         s1 = (if number_of_responses s key = None
               then s\<lparr>number_of_responses := (number_of_responses s)(key \<mapsto> 0),
                      cache_add_time := (cache_add_time s)(key \<mapsto> now)\<rparr>
               else s)
     in case number_of_responses s1 key of
          None \<Rightarrow> (Raised KeyError, s1)
        | Some n \<Rightarrow>
            if n > max_pos_per_sp
            then (Returned None,
                  log_add INFO ''Surpassed max_pos_per_sp PoSpace for one SP'' s1)
            else
              (case sps s1 key of
                 None \<Rightarrow>
                   (Returned None,
                    log_add WARNING
                      ''Received response for a signage point that we do not have'' s1)
               | Some bucket \<Rightarrow> new_proof_of_space_loop x now s1 new_pos peer bucket))"

subsection \<open>respond_signatures\<close>

text \<open>
  The loop of lines 136 to 140 over the bucket, on the pair \<open>(is_sp_signatures,
  found_sp_hash_debug)\<close>; \<open>message_signatures[0]\<close> and \<open>[1]\<close> are read inside
  it, so a short list raises \<open>IndexError\<close> there.
\<close>

fun sp_candidates_loop ::
  "RespondSignatures \<Rightarrow> bool \<times> bool \<Rightarrow> NewSignagePoint list \<Rightarrow> py_error + (bool \<times> bool)" where
  "sp_candidates_loop response (is_sp_signatures, found_sp_hash_debug) [] =
     Inr (is_sp_signatures, found_sp_hash_debug)"
| "sp_candidates_loop response (is_sp_signatures, found_sp_hash_debug) (sp_candidate # rest) =
     (case rs_message_signatures response of
        [] \<Rightarrow> Inl IndexError
      | (m0, sig0) # later \<Rightarrow>
          if rs_sp_hash response = m0 then
            (case later of
               [] \<Rightarrow> Inl IndexError
             | (m1, sig1) # others \<Rightarrow>
                 sp_candidates_loop response
                   (if sp_reward_chain_sp sp_candidate = m1 then True else is_sp_signatures, True)
                   rest)
          else sp_candidates_loop response (is_sp_signatures, found_sp_hash_debug) rest)"

text \<open>
  Lines 132 to 142: the value of \<open>is_sp_signatures\<close> with which the handler goes on,
  or the exception that ends it (\<open>assert is_sp_signatures\<close> under
  \<open>found_sp_hash_debug\<close>).
\<close>

definition resolve_is_sp_signatures ::
  "NewSignagePoint list \<Rightarrow> RespondSignatures \<Rightarrow> py_error + bool" where
  "resolve_is_sp_signatures bucket response =
    (case sp_candidates_loop response (False, False) bucket of
       Inl e \<Rightarrow> Inl e
     | Inr (is_sp_signatures, found_sp_hash_debug) \<Rightarrow>
         if found_sp_hash_debug \<and> \<not> is_sp_signatures then Inl AssertionError
         else Inr is_sp_signatures)"

text \<open>Lines 144 to 147: the last record with the plot identifier wins.\<close>

fun find_pospace ::
  "string \<Rightarrow> ProofOfSpace option \<Rightarrow> (string \<times> ProofOfSpace) list \<Rightarrow> ProofOfSpace option" where
  "find_pospace pid pospace [] = pospace"
| "find_pospace pid pospace ((plot_identifier, candidate_pospace) # rest) =
     find_pospace pid (if plot_identifier = pid then Some candidate_pospace else pospace) rest"

text \<open>
  The signage-point branch (lines 163 to 211): the first private key whose public key
  is the response's farmer key ends the handler.
\<close>

fun sp_signatures_loop ::
  "ext \<Rightarrow> farmer \<Rightarrow> RespondSignatures \<Rightarrow> ProofOfSpace \<Rightarrow> nat \<Rightarrow> bytes32 \<times> G2Element \<Rightarrow>
   bytes32 \<times> G2Element \<Rightarrow> PrivateKey list \<Rightarrow> message option outcome \<times> farmer" where
  "sp_signatures_loop x s response pospace signage_point_index cc rc [] = (Returned None, s)"
| "sp_signatures_loop x s response pospace signage_point_index cc rc (sk # sks) =
     (let pk = get_g1 x sk in
      if pk = rs_farmer_pk response then
        (let agg_pk = generate_plot_public_key x (rs_local_pk response) pk;
             farmer_share_cc_sp = AugSchemeMPL_sign_prepend x sk (fst cc) agg_pk;
             agg_sig_cc_sp = AugSchemeMPL_aggregate x [snd cc, farmer_share_cc_sp];
             farmer_share_rc_sp = AugSchemeMPL_sign_prepend x sk (fst rc) agg_pk;
             agg_sig_rc_sp = AugSchemeMPL_aggregate x [snd rc, farmer_share_rc_sp]
         in if agg_pk \<noteq> pos_plot_public_key pospace then (Raised AssertionError, s)
            else if \<not> AugSchemeMPL_verify x agg_pk (fst cc) agg_sig_cc_sp
            then (Raised AssertionError, s)
            else if \<not> AugSchemeMPL_verify x agg_pk (fst rc) agg_sig_rc_sp
            then (Raised AssertionError, s)
            else
              (let declare = (\<lambda>target target_signature.
                     (Returned None,
                      emit (SendToAll (DeclareProofOfSpaceMsg
                              \<lparr>dp_challenge_hash = rs_challenge_hash response,
                               dp_challenge_chain_sp = fst cc,
                               dp_signage_point_index = signage_point_index,
                               dp_reward_chain_sp = fst rc,
                               dp_proof_of_space = pospace,
                               dp_challenge_chain_sp_signature = agg_sig_cc_sp,
                               dp_reward_chain_sp_signature = agg_sig_rc_sp,
                               dp_farmer_puzzle_hash = farmer_target s,
                               dp_pool_target = target,
                               dp_pool_signature = target_signature\<rparr>) FULL_NODE)
                        (emit (StateChanged ''proof'') s)))
               in case pos_pool_public_key pospace of
                    Some pool_public_key \<Rightarrow>
                      if pos_pool_contract_puzzle_hash pospace \<noteq> None
                      then (Raised AssertionError, s)
                      else
                        (case pool_sks_map s pool_public_key of
                           None \<Rightarrow>
                             (Returned None,
                              log_add ERROR
                                ''Don't have the private key for the pool key used by harvester''
                                s)
                         | Some pool_sk \<Rightarrow>
                             (let target = \<lparr>pt_puzzle_hash = pool_target s, pt_max_height = 0\<rparr>
                              in declare (Some target)
                                   (Some (AugSchemeMPL_sign x pool_sk (pool_target_bytes x target)))))
                  | None \<Rightarrow>
                      if pos_pool_contract_puzzle_hash pospace = None
                      then (Raised AssertionError, s)
                      else declare None None))
      else sp_signatures_loop x s response pospace signage_point_index cc rc sks)"

text \<open>
  The block-signature branch (lines 215 to 244): the loop goes on after a broadcast, and
  reads \<open>message_signatures[0]\<close> and \<open>[1]\<close> at each key.
\<close>

fun block_signatures_loop ::
  "ext \<Rightarrow> farmer \<Rightarrow> RespondSignatures \<Rightarrow> ProofOfSpace \<Rightarrow> bytes32 \<Rightarrow> PrivateKey list \<Rightarrow>
   message option outcome \<times> farmer" where
  "block_signatures_loop x s response pospace computed_quality_string [] = (Returned None, s)"
| "block_signatures_loop x s response pospace computed_quality_string (sk # sks) =
     (case rs_message_signatures response of
        (foliage_block_data_hash, foliage_sig_harvester) #
        (foliage_transaction_block_hash, foliage_transaction_block_sig_harvester) # others \<Rightarrow>
          (let pk = get_g1 x sk in
           if pk = rs_farmer_pk response then
             (let agg_pk = generate_plot_public_key x (rs_local_pk response) pk;
                  foliage_sig_farmer =
                    AugSchemeMPL_sign_prepend x sk foliage_block_data_hash agg_pk;
                  foliage_transaction_block_sig_farmer =
                    AugSchemeMPL_sign_prepend x sk foliage_transaction_block_hash agg_pk;
                  foliage_agg_sig =
                    AugSchemeMPL_aggregate x [foliage_sig_harvester, foliage_sig_farmer];
                  foliage_block_agg_sig =
                    AugSchemeMPL_aggregate x
                      [foliage_transaction_block_sig_harvester,
                       foliage_transaction_block_sig_farmer]
              in if agg_pk \<noteq> pos_plot_public_key pospace then (Raised AssertionError, s)
                 else if \<not> AugSchemeMPL_verify x agg_pk foliage_block_data_hash foliage_agg_sig
                 then (Raised AssertionError, s)
                 else if \<not> AugSchemeMPL_verify x agg_pk foliage_transaction_block_hash
                             foliage_block_agg_sig
                 then (Raised AssertionError, s)
                 else
                   block_signatures_loop x
                     (emit (SendToAll (SignedValuesMsg
                              \<lparr>sv_quality_string = computed_quality_string,
                               sv_foliage_block_data_signature = foliage_agg_sig,
                               sv_foliage_transaction_block_signature = foliage_block_agg_sig\<rparr>)
                            FULL_NODE) s)
                     response pospace computed_quality_string sks)
           else block_signatures_loop x s response pospace computed_quality_string sks)
      | _ \<Rightarrow> (Raised IndexError, s))"

definition respond_signatures ::
  "ext \<Rightarrow> farmer \<Rightarrow> RespondSignatures \<Rightarrow> message option outcome \<times> farmer" where
  "respond_signatures x s response =
    (case sps s (rs_sp_hash response) of
       None \<Rightarrow> (Returned None, log_add WARNING ''Do not have challenge hash'' s)
     | Some bucket \<Rightarrow>
         (case bucket of
            [] \<Rightarrow> (Raised IndexError, s)
          | first_sp # later_sps \<Rightarrow>
              (let signage_point_index = sp_signage_point_index first_sp
               in case resolve_is_sp_signatures bucket response of
                    Inl e \<Rightarrow> (Raised e, s)
                  | Inr is_sp_signatures \<Rightarrow>
                      (case proofs_of_space s (rs_sp_hash response) of
                         None \<Rightarrow> (Raised KeyError, s)
                       | Some recorded \<Rightarrow>
                           (case find_pospace (rs_plot_identifier response) None recorded of
                              None \<Rightarrow> (Raised AssertionError, s)
                            | Some pospace \<Rightarrow>
                                (case verify_and_get_quality_string x pospace (constants s)
                                        (rs_challenge_hash response) (rs_sp_hash response) of
                                   None \<Rightarrow>
                                     (Returned None, log_add WARNING ''Have invalid PoSpace'' s)
                                 | Some computed_quality_string \<Rightarrow>
                                     if is_sp_signatures then
                                       (case rs_message_signatures response of
                                          cc # rc # others \<Rightarrow>
                                            sp_signatures_loop x s response pospace
                                              signage_point_index cc rc (private_keys s)
                                        | _ \<Rightarrow> (Raised IndexError, s))
                                     else
                                       block_signatures_loop x s response pospace
                                         computed_quality_string (private_keys s)))))))"

subsection \<open>Runs of proof intake\<close>

text \<open>
  The counter of a key as the handler reads it: \<open>new_proof_of_space\<close> creates a missing
  counter with the value 0 before it looks at it.
\<close>

definition responses_for :: "farmer \<Rightarrow> bytes32 \<Rightarrow> int" where
  "responses_for s key = (case number_of_responses s key of None \<Rightarrow> 0 | Some n \<Rightarrow> n)"

text \<open>
  The two tests of lines 60 to 79 on a proof and a signage point: the proof verifies, and
  its required iterations are below the interval of the signage point.
\<close>

definition block_eligible ::
  "ext \<Rightarrow> ConsensusConstants \<Rightarrow> NewProofOfSpace \<Rightarrow> NewSignagePoint \<Rightarrow> bool" where
  "block_eligible x c new_pos sp =
    (case verify_and_get_quality_string x (np_proof new_pos) c
            (np_challenge_hash new_pos) (np_sp_hash new_pos) of
       None \<Rightarrow> False
     | Some computed_quality_string \<Rightarrow>
         calculate_iterations_quality x (DIFFICULTY_CONSTANT_FACTOR c) computed_quality_string
           (pos_size (np_proof new_pos)) (sp_difficulty sp)
           (np_sp_hash new_pos)
         < calculate_sp_interval_iters x c (sp_sub_slot_iters sp))"

text \<open>The request of lines 81 to 86 for a proof and a signage point.\<close>

definition signature_request :: "NewProofOfSpace \<Rightarrow> NewSignagePoint \<Rightarrow> message" where
  "signature_request new_pos sp =
    RequestSignaturesMsg
      \<lparr>rq_plot_identifier = np_plot_identifier new_pos,
       rq_challenge_hash = np_challenge_hash new_pos,
       rq_sp_hash = np_sp_hash new_pos,
       rq_messages = [sp_challenge_chain_sp sp, sp_reward_chain_sp sp]\<rparr>"

text \<open>
  Messages handled one after the other, each at its own time and from its own peer; an
  exception ends the handling of one message, not the run.
\<close>

fun intake_run ::
  "ext \<Rightarrow> farmer \<Rightarrow> (nat \<times> NewProofOfSpace \<times> WSChiaConnection) list \<Rightarrow>
   message option outcome list \<times> farmer" where
  "intake_run x s [] = ([], s)"
| "intake_run x s ((now, new_pos, peer) # rest) =
     (case new_proof_of_space x now s new_pos peer of
        (out, s1) \<Rightarrow> (case intake_run x s1 rest of (outs, s2) \<Rightarrow> (out # outs, s2)))"

fun is_request_for :: "bytes32 \<Rightarrow> message option outcome \<Rightarrow> bool" where
  "is_request_for key (Returned (Some (RequestSignaturesMsg r))) = (rq_sp_hash r = key)"
| "is_request_for key out = False"

subsection \<open>A concrete farmer\<close>

text \<open>
  A small instance on which the theorems below are run: one private key \<open>fk\<close> (its own
  public key), plot keys by concatenation, a signature scheme in which \<open>s\<close> is the only
  valid signature, required iterations equal to the difficulty, and a pool that answers
  every partial with error code 5 and the difficulty 400.
\<close>

definition demo_ext :: ext where
  "demo_ext =
    \<lparr>verify_and_get_quality_string =
       (\<lambda>p c ch sp. if pos_proof p = [] then None else Some (pos_proof p)),
     calculate_iterations_quality = (\<lambda>f q k d sp. d),
     calculate_sp_interval_iters = (\<lambda>c ssi. ssi),
     get_g1 = (\<lambda>sk. sk),
     generate_plot_public_key = (\<lambda>a b. a @ b),
     AugSchemeMPL_sign_prepend = (\<lambda>sk m pk. ''s''),
     AugSchemeMPL_sign = (\<lambda>sk m. ''s''),
     AugSchemeMPL_aggregate = (\<lambda>sigs. if list_all (\<lambda>g. g = ''s'') sigs then ''s'' else ''bad''),
     AugSchemeMPL_verify = (\<lambda>pk m sg. sg = ''s''),
     get_hash = (\<lambda>p. ''h''),
     pool_target_bytes = pt_puzzle_hash,
     peer_request_signatures =
       (\<lambda>node req. RespondSignaturesReply
          \<lparr>rs_plot_identifier = rq_plot_identifier req,
           rs_challenge_hash = rq_challenge_hash req,
           rs_sp_hash = rq_sp_hash req,
           rs_local_pk = ''lk'',
           rs_farmer_pk = ''fk'',
           rs_message_signatures = map (\<lambda>m. (m, ''s'')) (rq_messages req)\<rparr>),
     pool_submit_partial =
       (\<lambda>sub. SubmitResponse
          \<lparr>pr_error_code = Some 5, pr_error_message = None,
           pr_current_difficulty = Some 400\<rparr>)\<rparr>"

definition demo_farmer :: farmer where
  "demo_farmer =
    \<lparr>number_of_responses = Map.empty,
     cache_add_time = Map.empty,
     sps = Map.empty,
     proofs_of_space = Map.empty,
     quality_str_to_identifiers = Map.empty,
     private_keys = [''fk''],
     pool_sks_map = [''poolpk'' \<mapsto> ''poolsk''],
     pool_target = ''pool_target'',
     farmer_target = ''farmer_target'',
     pool_difficulty = 10,
     pool_sub_slot_iters = 1000,
     iters_limit = 100,
     pool_payout_address = ''payout'',
     pooling_enabled = False,
     last_pool_partial_submit_timestamp = 0,
     constants = \<lparr>DIFFICULTY_CONSTANT_FACTOR = 1\<rparr>,
     log = [],
     effects = []\<rparr>"

definition demo_sp :: NewSignagePoint where
  "demo_sp =
    \<lparr>sp_challenge_hash = ''ch'',
     sp_challenge_chain_sp = ''cc'',
     sp_reward_chain_sp = ''rc'',
     sp_difficulty = 7,
     sp_sub_slot_iters = 1000,
     sp_signage_point_index = 3\<rparr>"

definition demo_pos :: ProofOfSpace where
  "demo_pos =
    \<lparr>pos_challenge = ''ch'',
     pos_pool_public_key = Some ''poolpk'',
     pos_pool_contract_puzzle_hash = None,
     pos_plot_public_key = ''lkfk'',
     pos_size = 32,
     pos_proof = ''q1''\<rparr>"

definition demo_new_pos :: NewProofOfSpace where
  "demo_new_pos =
    \<lparr>np_challenge_hash = ''ch'',
     np_sp_hash = ''cc'',
     np_plot_identifier = ''plot1'',
     np_proof = demo_pos,
     np_signage_point_index = 3\<rparr>"

definition demo_peer :: WSChiaConnection where
  "demo_peer = \<lparr>peer_node_id = ''harvester''\<rparr>"

subsection \<open>Verified aggregates and broadcasts\<close>

text \<open>
  The two aggregate signatures the handler builds with the private key \<open>sk\<close> from the
  harvester's shares of a response (lines 166 to 175 and 226 to 235) both verify against
  the plot public key combined from the response's local key and farmer key.
\<close>

definition aggregates_verify :: "ext \<Rightarrow> RespondSignatures \<Rightarrow> PrivateKey \<Rightarrow> bool" where
  "aggregates_verify x response sk =
    (case rs_message_signatures response of
       (m0, g0) # (m1, g1) # others \<Rightarrow>
         (let agg_pk = generate_plot_public_key x (rs_local_pk response) (rs_farmer_pk response)
          in AugSchemeMPL_verify x agg_pk m0
               (AugSchemeMPL_aggregate x [g0, AugSchemeMPL_sign_prepend x sk m0 agg_pk])
             \<and> AugSchemeMPL_verify x agg_pk m1
               (AugSchemeMPL_aggregate x [g1, AugSchemeMPL_sign_prepend x sk m1 agg_pk]))
     | _ \<Rightarrow> False)"

text \<open>
  A message carries the two aggregates built with \<open>sk\<close>, over the two signed messages
  of the response.
\<close>

fun carries_aggregates :: "ext \<Rightarrow> RespondSignatures \<Rightarrow> PrivateKey \<Rightarrow> message \<Rightarrow> bool" where
  "carries_aggregates x response sk (DeclareProofOfSpaceMsg d) =
    (case rs_message_signatures response of
       (m0, g0) # (m1, g1) # others \<Rightarrow>
         (let agg_pk = generate_plot_public_key x (rs_local_pk response) (rs_farmer_pk response)
          in dp_challenge_chain_sp d = m0 \<and> dp_reward_chain_sp d = m1
             \<and> dp_challenge_chain_sp_signature d =
                 AugSchemeMPL_aggregate x [g0, AugSchemeMPL_sign_prepend x sk m0 agg_pk]
             \<and> dp_reward_chain_sp_signature d =
                 AugSchemeMPL_aggregate x [g1, AugSchemeMPL_sign_prepend x sk m1 agg_pk])
     | _ \<Rightarrow> False)"
| "carries_aggregates x response sk (SignedValuesMsg v) =
    (case rs_message_signatures response of
       (m0, g0) # (m1, g1) # others \<Rightarrow>
         (let agg_pk = generate_plot_public_key x (rs_local_pk response) (rs_farmer_pk response)
          in sv_foliage_block_data_signature v =
                 AugSchemeMPL_aggregate x [g0, AugSchemeMPL_sign_prepend x sk m0 agg_pk]
             \<and> sv_foliage_transaction_block_signature v =
                 AugSchemeMPL_aggregate x [g1, AugSchemeMPL_sign_prepend x sk m1 agg_pk])
     | _ \<Rightarrow> False)"
| "carries_aggregates x response sk msg = False"

text \<open>The full-node broadcasts among a list of effects.\<close>

fun full_node_broadcasts :: "effect list \<Rightarrow> message list" where
  "full_node_broadcasts [] = []"
| "full_node_broadcasts (SendToAll msg FULL_NODE # es) = msg # full_node_broadcasts es"
| "full_node_broadcasts (e # es) = full_node_broadcasts es"

definition demo_response :: RespondSignatures where
  "demo_response =
    \<lparr>rs_plot_identifier = ''plot1'',
     rs_challenge_hash = ''ch'',
     rs_sp_hash = ''cc'',
     rs_local_pk = ''lk'',
     rs_farmer_pk = ''fk'',
     rs_message_signatures = [(''cc'', ''s''), (''rc'', ''s'')]\<rparr>"

text \<open>The concrete farmer after the signage point and one proof have been taken in.\<close>

definition demo_farmer_with_proof :: farmer where
  "demo_farmer_with_proof =
    demo_farmer\<lparr>sps := [''cc'' \<mapsto> [demo_sp]],
      proofs_of_space := [''cc'' \<mapsto> [(''plot1'', demo_pos)]]\<rparr>"

section \<open>Properties\<close>

subsection \<open>request_signed_values on an unknown quality string\<close>

text \<open>
  C9. When the quality string of a RequestSignedValues is not a key of
  \<open>quality_str_to_identifiers\<close>, the handler returns \<open>None\<close> without raising, the
  only change to the farmer is one ERROR entry in the log, and nothing is sent (the
  effects, which hold every message to a harvester, are as before).
\<close>

theorem request_signed_values_unknown_quality:
  "quality_str_to_identifiers s (rv_quality_string r) = None \<Longrightarrow>
     request_signed_values s r =
       (Returned None, s\<lparr>log := log s @ [(ERROR, ''Do not have quality string'')]\<rparr>)
     \<and> effects (snd (request_signed_values s r)) = effects s"
  by (simp add: request_signed_values_def log_add_def)

theorem request_signed_values_unknown_quality_witness:
  "quality_str_to_identifiers demo_farmer ''q'' = None
   \<and> request_signed_values demo_farmer
        \<lparr>rv_quality_string = ''q'', rv_foliage_block_data_hash = ''f1'',
         rv_foliage_transaction_block_hash = ''f2''\<rparr> =
       (Returned None, demo_farmer\<lparr>log := [(ERROR, ''Do not have quality string'')]\<rparr>)"
  using request_signed_values_unknown_quality [of demo_farmer
        "\<lparr>rv_quality_string = ''q'', rv_foliage_block_data_hash = ''f1'',
         rv_foliage_transaction_block_hash = ''f2''\<rparr>"]
  by (simp add: demo_farmer_def)

subsection \<open>new_signage_point on a signage point that is already registered\<close>

lemma new_signage_point_registered:
  assumes "sps s (sp_challenge_chain_sp nsp) = Some bucket" and "nsp \<in> set bucket"
  shows "new_signage_point now s nsp =
     (Returned None,
      s\<lparr>log := log s @ [(DEBUG, ''Duplicate signage point'')],
        effects := effects s @
          [SendToAll (NewSignagePointHarvesterMsg
             \<lparr>nh_challenge_hash = sp_challenge_hash nsp,
              nh_difficulty = (if pooling_enabled s then pool_difficulty s else sp_difficulty nsp),
              nh_sub_slot_iters =
                (if pooling_enabled s then pool_sub_slot_iters s else sp_sub_slot_iters nsp),
              nh_signage_point_index = sp_signage_point_index nsp,
              nh_sp_hash = sp_challenge_chain_sp nsp\<rparr>) HARVESTER]\<rparr>)"
  using assms by (simp add: new_signage_point_def Let_def emit_def log_add_def)

lemma new_signage_point_registers:
  "\<exists>bucket. sps (snd (new_signage_point now s nsp)) (sp_challenge_chain_sp nsp) = Some bucket
      \<and> nsp \<in> set bucket"
  by (auto simp add: new_signage_point_def Let_def emit_def log_add_def split: option.splits)

text \<open>
  C8. A NewSignagePoint that is already in the bucket of its key is not appended: the
  handler returns, the registry \<open>sps\<close> and the time stamps are as before, and the
  duplicate is logged at DEBUG level. So handling the same NewSignagePoint a second time
  (at any later time) leaves the registry as the first handling left it.
\<close>

theorem new_signage_point_idempotent:
  "(sps s (sp_challenge_chain_sp nsp) = Some bucket \<and> nsp \<in> set bucket \<longrightarrow>
      fst (new_signage_point now s nsp) = Returned None
      \<and> sps (snd (new_signage_point now s nsp)) = sps s
      \<and> cache_add_time (snd (new_signage_point now s nsp)) = cache_add_time s
      \<and> log (snd (new_signage_point now s nsp)) = log s @ [(DEBUG, ''Duplicate signage point'')])
   \<and> sps (snd (new_signage_point now' (snd (new_signage_point now s nsp)) nsp)) =
       sps (snd (new_signage_point now s nsp))"
proof -
  obtain b where b: "sps (snd (new_signage_point now s nsp)) (sp_challenge_chain_sp nsp) = Some b"
      "nsp \<in> set b"
    using new_signage_point_registers by blast
  have "sps (snd (new_signage_point now' (snd (new_signage_point now s nsp)) nsp)) =
       sps (snd (new_signage_point now s nsp))"
    by (simp add: new_signage_point_registered [OF b])
  moreover have "sps s (sp_challenge_chain_sp nsp) = Some bucket \<and> nsp \<in> set bucket \<longrightarrow>
      fst (new_signage_point now s nsp) = Returned None
      \<and> sps (snd (new_signage_point now s nsp)) = sps s
      \<and> cache_add_time (snd (new_signage_point now s nsp)) = cache_add_time s
      \<and> log (snd (new_signage_point now s nsp)) = log s @ [(DEBUG, ''Duplicate signage point'')]"
    by (auto simp add: new_signage_point_registered)
  ultimately show ?thesis by blast
qed

theorem new_signage_point_idempotent_witness:
  "sps (snd (new_signage_point 1 demo_farmer demo_sp)) ''cc'' = Some [demo_sp]
   \<and> sps (snd (new_signage_point 2 (snd (new_signage_point 1 demo_farmer demo_sp)) demo_sp)) ''cc''
       = Some [demo_sp]
   \<and> cache_add_time
        (snd (new_signage_point 2 (snd (new_signage_point 1 demo_farmer demo_sp)) demo_sp)) ''cc''
       = Some 1"
proof -
  have a: "sps (snd (new_signage_point 1 demo_farmer demo_sp)) (sp_challenge_chain_sp demo_sp)
      = Some [demo_sp]"
    by (simp add: new_signage_point_def Let_def emit_def log_add_def demo_farmer_def demo_sp_def)
  have c: "cache_add_time (snd (new_signage_point 1 demo_farmer demo_sp)) ''cc'' = Some 1"
    by (simp add: new_signage_point_def Let_def emit_def log_add_def demo_farmer_def demo_sp_def)
  from new_signage_point_idempotent
         [of "snd (new_signage_point 1 demo_farmer demo_sp)" demo_sp "[demo_sp]" 2 2] a c
  show ?thesis by (simp add: demo_sp_def)
qed

subsection \<open>What the pool path leaves alone\<close>

lemma pool_partial_response_frame:
  assumes "pool_partial_response s res = (out, s')"
  shows "number_of_responses s' = number_of_responses s \<and> cache_add_time s' = cache_add_time s
    \<and> sps s' = sps s \<and> proofs_of_space s' = proofs_of_space s
    \<and> quality_str_to_identifiers s' = quality_str_to_identifiers s
    \<and> constants s' = constants s \<and> effects s' = effects s"
  using assms
  by (auto simp add: pool_partial_response_def Let_def log_add_def
      split: submit_result.splits option.splits if_splits)

lemma pool_partial_prepare_frame:
  assumes "pool_partial_prepare x now s m peer pk q = r"
    and "r = Inl (out, s') \<or> r = Inr (sub, s')"
  shows "number_of_responses s' = number_of_responses s \<and> cache_add_time s' = cache_add_time s
    \<and> sps s' = sps s \<and> proofs_of_space s' = proofs_of_space s
    \<and> quality_str_to_identifiers s' = quality_str_to_identifiers s
    \<and> constants s' = constants s \<and> pool_difficulty s' = pool_difficulty s"
  using assms
  by (auto simp add: pool_partial_prepare_def Let_def log_add_def emit_def
      split: harvester_reply.splits list.splits sum.splits option.splits prod.splits if_splits)

lemma process_pool_frame:
  assumes "process_new_proof_of_space_for_pool x now s m peer pk q = (out, s')"
  shows "number_of_responses s' = number_of_responses s \<and> cache_add_time s' = cache_add_time s
    \<and> sps s' = sps s \<and> proofs_of_space s' = proofs_of_space s
    \<and> quality_str_to_identifiers s' = quality_str_to_identifiers s
    \<and> constants s' = constants s"
proof (cases "pool_partial_prepare x now s m peer pk q")
  case (Inl a)
  then show ?thesis using assms pool_partial_prepare_frame [of x now s m peer pk q "Inl (out, s')" out s']
    by (simp add: process_new_proof_of_space_for_pool_def)
next
  case (Inr b)
  obtain sub s1 where b: "b = (sub, s1)" by (cases b)
  from Inr b have r: "pool_partial_response s1 (pool_submit_partial x sub) = (out, s')"
    using assms by (simp add: process_new_proof_of_space_for_pool_def)
  from pool_partial_prepare_frame [of x now s m peer pk q "Inr (sub, s1)" out s1 sub] Inr b
    pool_partial_response_frame [OF r]
  show ?thesis by simp
qed

subsection \<open>One step of proof intake\<close>

lemma intake_over_cap:
  assumes "responses_for s (np_sp_hash m) > 5"
  shows "new_proof_of_space x now s m peer =
    (Returned None, s\<lparr>log := log s @ [(INFO, ''Surpassed max_pos_per_sp PoSpace for one SP'')]\<rparr>)"
  using assms
  by (simp add: new_proof_of_space_def responses_for_def Let_def log_add_def max_pos_per_sp_def
      split: option.splits)

lemma intake_eligible:
  assumes "responses_for s (np_sp_hash m) \<le> 5"
    and "sps s (np_sp_hash m) = Some (sp # rest)"
    and "block_eligible x (constants s) m sp"
  shows "fst (new_proof_of_space x now s m peer) = Returned (Some (signature_request m sp))
    \<and> sps (snd (new_proof_of_space x now s m peer)) = sps s
    \<and> constants (snd (new_proof_of_space x now s m peer)) = constants s
    \<and> responses_for (snd (new_proof_of_space x now s m peer)) (np_sp_hash m) =
        responses_for s (np_sp_hash m) + 1"
  using assms
  by (auto simp add: new_proof_of_space_def new_proof_of_space_body_def responses_for_def
      block_eligible_def signature_request_def Let_def log_add_def max_pos_per_sp_def
      split: option.splits)

lemma intake_eligible_log:
  assumes "responses_for s (np_sp_hash m) \<le> 5"
    and "sps s (np_sp_hash m) = Some (sp # rest)"
    and "block_eligible x (constants s) m sp"
  shows "log (snd (new_proof_of_space x now s m peer)) = log s"
  using assms
  by (auto simp add: new_proof_of_space_def new_proof_of_space_body_def responses_for_def
      block_eligible_def Let_def log_add_def max_pos_per_sp_def
      split: option.splits)

lemma body_counter:
  assumes "new_proof_of_space_body x now s m peer sp = (out, s')"
    and "number_of_responses s (np_sp_hash m) = Some n"
  shows "sps s' = sps s \<and> constants s' = constants s \<and>
    ((number_of_responses s' = number_of_responses s \<and> out = Returned None)
     \<or> (number_of_responses s' = (number_of_responses s)(np_sp_hash m \<mapsto> n + 1)
        \<and> (out = Returned None \<or> (\<exists>e. out = Raised e)
            \<or> (out = Returned (Some (signature_request m sp))
                \<and> block_eligible x (constants s) m sp))))"
proof (cases "verify_and_get_quality_string x (np_proof m) (constants s)
            (np_challenge_hash m) (np_sp_hash m)")
  case None
  then show ?thesis using assms
    by (auto simp add: new_proof_of_space_body_def log_add_def)
next
  case (Some q)
  let ?s1 = "s\<lparr>number_of_responses := (number_of_responses s)(np_sp_hash m \<mapsto> n + 1)\<rparr>"
  show ?thesis
  proof (cases "block_eligible x (constants s) m sp")
    case True
    then show ?thesis using assms Some
      by (auto simp add: new_proof_of_space_body_def block_eligible_def signature_request_def
          Let_def)
  next
    case False
    show ?thesis
    proof (cases "\<exists>pk. pos_pool_public_key (np_proof m) = Some pk \<and> pooling_enabled s")
      case True
      then obtain pk where pk: "pos_pool_public_key (np_proof m) = Some pk" "pooling_enabled s"
        by blast
      obtain o2 s2 where p: "process_new_proof_of_space_for_pool x now ?s1 m peer pk q = (o2, s2)"
        by (cases "process_new_proof_of_space_for_pool x now ?s1 m peer pk q")
      have "s' = s2 \<and> (out = Returned None \<or> (\<exists>e. out = Raised e))"
        using assms Some False pk p
        by (auto simp add: new_proof_of_space_body_def block_eligible_def Let_def
            split: outcome.splits)
      then show ?thesis using process_pool_frame [OF p] by auto
    next
      case False
      then show ?thesis using assms Some \<open>\<not> block_eligible x (constants s) m sp\<close>
        by (auto simp add: new_proof_of_space_body_def block_eligible_def Let_def
            split: option.splits)
    qed
  qed
qed

lemma intake_counter:
  assumes "new_proof_of_space x now s m peer = (out, s')"
  shows "sps s' = sps s \<and> constants s' = constants s
    \<and> (\<forall>k. k \<noteq> np_sp_hash m \<longrightarrow> number_of_responses s' k = number_of_responses s k)
    \<and> ((responses_for s' (np_sp_hash m) = responses_for s (np_sp_hash m)
          \<and> (out = Returned None \<or> (\<exists>e. out = Raised e)))
       \<or> (responses_for s (np_sp_hash m) \<le> 5
          \<and> responses_for s' (np_sp_hash m) = responses_for s (np_sp_hash m) + 1
          \<and> (out = Returned None \<or> (\<exists>e. out = Raised e)
              \<or> (\<exists>sp rest. sps s (np_sp_hash m) = Some (sp # rest)
                    \<and> out = Returned (Some (signature_request m sp))
                    \<and> block_eligible x (constants s) m sp))))"
proof -
  let ?k = "np_sp_hash m"
  let ?s1 = "if number_of_responses s ?k = None
               then s\<lparr>number_of_responses := (number_of_responses s)(?k \<mapsto> 0),
                      cache_add_time := (cache_add_time s)(?k \<mapsto> now)\<rparr>
               else s"
  have s1: "number_of_responses ?s1 ?k = Some (responses_for s ?k)" "sps ?s1 = sps s"
    "constants ?s1 = constants s" "responses_for ?s1 ?k = responses_for s ?k"
    "\<forall>k. k \<noteq> ?k \<longrightarrow> number_of_responses ?s1 k = number_of_responses s k"
    by (auto simp add: responses_for_def split: option.splits)
  show ?thesis
  proof (cases "responses_for s ?k > 5")
    case True
    then show ?thesis using assms intake_over_cap [OF True, of x now peer]
      by (auto simp add: responses_for_def)
  next
    case False
    show ?thesis
    proof (cases "sps s ?k")
      case None
      then show ?thesis using assms False
        by (auto simp add: new_proof_of_space_def responses_for_def Let_def log_add_def
            max_pos_per_sp_def split: option.splits)
    next
      case (Some bucket)
      show ?thesis
      proof (cases bucket)
        case Nil
        then show ?thesis using assms False Some
          by (auto simp add: new_proof_of_space_def responses_for_def Let_def log_add_def
              max_pos_per_sp_def split: option.splits)
      next
        case (Cons sp rest)
        have b: "new_proof_of_space_body x now ?s1 m peer sp = (out, s')"
        proof (cases "number_of_responses s ?k")
          case None
          then show ?thesis using assms False \<open>sps s ?k = Some bucket\<close> Cons
            by (simp add: new_proof_of_space_def Let_def max_pos_per_sp_def responses_for_def)
        next
          case (Some n)
          then show ?thesis using assms False \<open>sps s ?k = Some bucket\<close> Cons
            by (simp add: new_proof_of_space_def Let_def max_pos_per_sp_def responses_for_def)
        qed
        from body_counter [OF b s1(1)] s1 False Some Cons
        show ?thesis
          by (auto simp add: responses_for_def)
      qed
    qed
  qed
qed

subsection \<open>Runs of proof intake on one key\<close>

lemma fst_intake_run_Cons:
  "fst (intake_run x s ((now, m, peer) # msgs)) =
     fst (new_proof_of_space x now s m peer)
       # fst (intake_run x (snd (new_proof_of_space x now s m peer)) msgs)"
  by (simp split: prod.splits)

lemma intake_run_eligible:
  assumes "sps s k = Some (sp # rest)"
    and "\<forall>(now, m, peer) \<in> set msgs. np_sp_hash m = k \<and> block_eligible x (constants s) m sp"
  shows "fst (intake_run x s msgs) =
      map (\<lambda>(now, m, peer). Returned (Some (signature_request m sp)))
          (take (nat (6 - responses_for s k)) msgs)
      @ replicate (length msgs - nat (6 - responses_for s k)) (Returned None)"
  using assms
proof (induction msgs arbitrary: s)
  case Nil
  then show ?case by simp
next
  case (Cons a msgs)
  obtain now m peer where a: "a = (now, m, peer)" by (cases a)
  obtain out s1 where st: "new_proof_of_space x now s m peer = (out, s1)"
    by (cases "new_proof_of_space x now s m peer")
  have m: "np_sp_hash m = k" "block_eligible x (constants s) m sp"
    using Cons.prems(2) a by auto
  show ?case
  proof (cases "responses_for s k > 5")
    case True
    have "new_proof_of_space x now s m peer =
        (Returned None, s\<lparr>log := log s @ [(INFO, ''Surpassed max_pos_per_sp PoSpace for one SP'')]\<rparr>)"
      using intake_over_cap [of s m x now peer] True m by simp
    with st have o: "out = Returned None"
      and s1: "s1 = s\<lparr>log := log s @ [(INFO, ''Surpassed max_pos_per_sp PoSpace for one SP'')]\<rparr>"
      by simp_all
    have c1: "responses_for s1 k = responses_for s k" "sps s1 k = Some (sp # rest)"
      "constants s1 = constants s"
      using s1 Cons.prems(1) by (simp_all add: responses_for_def)
    have ih: "fst (intake_run x s1 msgs) =
      map (\<lambda>(now, m, peer). Returned (Some (signature_request m sp)))
          (take (nat (6 - responses_for s1 k)) msgs)
      @ replicate (length msgs - nat (6 - responses_for s1 k)) (Returned None)"
      using Cons.IH [of s1] c1 Cons.prems(2) by simp
    show ?thesis using True ih c1 a st o
      by (simp add: fst_intake_run_Cons del: intake_run.simps)
  next
    case False
    then have le: "responses_for s (np_sp_hash m) \<le> 5" using m by simp
    from intake_eligible [OF le, of sp rest x now peer] Cons.prems(1) m st
    have o: "out = Returned (Some (signature_request m sp))"
      and c1: "sps s1 k = Some (sp # rest)" "constants s1 = constants s"
        "responses_for s1 k = responses_for s k + 1"
      by simp_all
    have ih: "fst (intake_run x s1 msgs) =
      map (\<lambda>(now, m, peer). Returned (Some (signature_request m sp)))
          (take (nat (6 - responses_for s1 k)) msgs)
      @ replicate (length msgs - nat (6 - responses_for s1 k)) (Returned None)"
      using Cons.IH [of s1] c1 Cons.prems(2) by simp
    have n: "nat (6 - responses_for s k) = Suc (nat (6 - responses_for s1 k))"
      using False c1 by simp
    show ?thesis using ih a st o c1
      by (simp add: n fst_intake_run_Cons del: intake_run.simps)
  qed
qed

lemma intake_run_bound:
  "int (length (filter (is_request_for k) (fst (intake_run x s msgs))))
     \<le> max 0 (6 - responses_for s k)"
proof (induction msgs arbitrary: s)
  case Nil
  then show ?case by simp
next
  case (Cons a msgs)
  obtain now m peer where a: "a = (now, m, peer)" by (cases a)
  obtain out s1 where st: "new_proof_of_space x now s m peer = (out, s1)"
    by (cases "new_proof_of_space x now s m peer")
  note c = intake_counter [OF st]
  have mono: "responses_for s k \<le> responses_for s1 k"
  proof (cases "k = np_sp_hash m")
    case True
    then show ?thesis using c by auto
  next
    case False
    then have "number_of_responses s1 k = number_of_responses s k" using c by blast
    then show ?thesis by (simp add: responses_for_def)
  qed
  have ih: "int (length (filter (is_request_for k) (fst (intake_run x s1 msgs))))
     \<le> max 0 (6 - responses_for s1 k)"
    by (rule Cons.IH)
  show ?case
  proof (cases "is_request_for k out")
    case True
    then have "\<exists>sp. out = Returned (Some (signature_request m sp))"
      using c by (auto)
    then have km: "k = np_sp_hash m" using True by (auto simp add: signature_request_def)
    have "responses_for s k \<le> 5 \<and> responses_for s1 k = responses_for s k + 1"
      using c True km by auto
    then show ?thesis using ih a st True
      by (simp add: fst_intake_run_Cons del: intake_run.simps)
  next
    case False
    then show ?thesis using ih a st mono
      by (simp add: fst_intake_run_Cons del: intake_run.simps)
  qed
qed

lemma snd_intake_run_Cons:
  "snd (intake_run x s ((now, m, peer) # msgs)) =
     snd (intake_run x (snd (new_proof_of_space x now s m peer)) msgs)"
  by (simp split: prod.splits)

lemma snd_intake_run_append:
  "snd (intake_run x s (as @ bs)) = snd (intake_run x (snd (intake_run x s as)) bs)"
proof (induction as arbitrary: s)
  case Nil
  then show ?case by simp
next
  case (Cons a as)
  obtain now m peer where a: "a = (now, m, peer)" by (cases a)
  show ?case unfolding a append_Cons snd_intake_run_Cons by (rule Cons.IH)
qed

lemma intake_run_eligible_state:
  assumes "sps s k = Some (sp # rest)"
    and "\<forall>(now, m, peer) \<in> set msgs. np_sp_hash m = k \<and> block_eligible x (constants s) m sp"
    and "responses_for s k + int (length msgs) \<le> 6"
  shows "responses_for (snd (intake_run x s msgs)) k = responses_for s k + int (length msgs)
    \<and> log (snd (intake_run x s msgs)) = log s
    \<and> sps (snd (intake_run x s msgs)) = sps s
    \<and> constants (snd (intake_run x s msgs)) = constants s"
  using assms
proof (induction msgs arbitrary: s)
  case Nil
  then show ?case by simp
next
  case (Cons a msgs)
  obtain now m peer where a: "a = (now, m, peer)" by (cases a)
  have m: "np_sp_hash m = k" "block_eligible x (constants s) m sp"
    using Cons.prems(2) a by auto
  have le: "responses_for s (np_sp_hash m) \<le> 5" using Cons.prems(3) m by simp
  define s1 where "s1 = snd (new_proof_of_space x now s m peer)"
  from intake_eligible [OF le, of sp rest x now peer] Cons.prems(1) m
  have c1: "sps s1 = sps s" "constants s1 = constants s"
    "responses_for s1 k = responses_for s k + 1"
    by (simp_all add: s1_def)
  have l1: "log s1 = log s"
    using intake_eligible_log [OF le, of sp rest x now peer] Cons.prems(1) m
    by (simp add: s1_def)
  have ih: "responses_for (snd (intake_run x s1 msgs)) k = responses_for s1 k + int (length msgs)
    \<and> log (snd (intake_run x s1 msgs)) = log s1
    \<and> sps (snd (intake_run x s1 msgs)) = sps s1
    \<and> constants (snd (intake_run x s1 msgs)) = constants s1"
    using Cons.IH [of s1] c1 Cons.prems by simp
  show ?case unfolding a snd_intake_run_Cons s1_def [symmetric]
    using ih c1 l1 by simp
qed

lemma demo_eligible: "block_eligible demo_ext (constants demo_farmer) demo_new_pos demo_sp"
  by (simp add: block_eligible_def demo_ext_def demo_farmer_def demo_new_pos_def demo_sp_def
      demo_pos_def)

text \<open>
  The claim that of seven block-eligible proofs for one key only the first five get a
  RequestSignatures fails: the counter is compared with \<open>max_pos_per_sp\<close> by \<open>>\<close>
  before it is incremented, so the sixth proof (counter 5) is still answered.
\<close>

theorem intake_seven_proofs_counterexample:
  "fst (intake_run demo_ext (demo_farmer\<lparr>sps := [''cc'' \<mapsto> [demo_sp]]\<rparr>)
         (replicate 7 (0, demo_new_pos, demo_peer))) ! 5
     = Returned (Some (signature_request demo_new_pos demo_sp))"
proof -
  let ?s = "demo_farmer\<lparr>sps := [''cc'' \<mapsto> [demo_sp]]\<rparr>"
  let ?msgs = "replicate 7 (0::nat, demo_new_pos, demo_peer)"
  have r: "responses_for ?s ''cc'' = 0"
    by (simp add: responses_for_def demo_farmer_def)
  have k: "np_sp_hash demo_new_pos = ''cc''" by (simp add: demo_new_pos_def)
  have "fst (intake_run demo_ext ?s ?msgs) =
      map (\<lambda>(now, m, peer). Returned (Some (signature_request m demo_sp)))
          (take (nat (6 - responses_for ?s ''cc'')) ?msgs)
      @ replicate (length ?msgs - nat (6 - responses_for ?s ''cc'')) (Returned None)"
    by (rule intake_run_eligible [where rest = "[]"]) (simp_all add: demo_eligible k)
  then show ?thesis
    by (simp add: r nth_append)
qed

text \<open>
  C3, amended. For a key with one registered SignagePoint and a fresh counter (absent or
  0), of seven verified, block-eligible NewProofOfSpace messages for that key handled in
  sequence, exactly the first six are each answered with the RequestSignatures for the
  signage point's challenge-chain and reward-chain values, and write nothing to the log;
  the seventh is answered with nothing (the handler returns \<open>None\<close>), and all it
  changes in the state the first six left is the log, by the one INFO entry of the cap:
  no entry of another level, no exception. And whatever messages are handled from such a
  state, at most six RequestSignatures for the key are returned.
\<close>

theorem intake_seven_proofs:
  assumes "sps s k = Some [sp]"
    and "number_of_responses s k = None \<or> number_of_responses s k = Some 0"
    and "length msgs = 7"
    and "\<forall>(now, m, peer) \<in> set msgs. np_sp_hash m = k \<and> block_eligible x (constants s) m sp"
  shows "fst (intake_run x s msgs) =
      map (\<lambda>(now, m, peer). Returned (Some (signature_request m sp))) (take 6 msgs)
      @ [Returned None]
    \<and> log (snd (intake_run x s (take 6 msgs))) = log s
    \<and> snd (intake_run x s msgs) =
        (snd (intake_run x s (take 6 msgs)))
          \<lparr>log := log s @ [(INFO, ''Surpassed max_pos_per_sp PoSpace for one SP'')]\<rparr>
    \<and> (\<forall>msgs'. length (filter (is_request_for k) (fst (intake_run x s msgs'))) \<le> 6)"
proof -
  have r: "responses_for s k = 0" using assms(2) by (auto simp add: responses_for_def)
  have outs: "fst (intake_run x s msgs) =
      map (\<lambda>(now, m, peer). Returned (Some (signature_request m sp))) (take 6 msgs)
      @ [Returned None]"
    using intake_run_eligible [OF assms(1) assms(4)] assms(3) by (simp add: r)
  have bound: "length (filter (is_request_for k) (fst (intake_run x s msgs'))) \<le> 6" for msgs'
    using intake_run_bound [of k x s msgs'] by (simp add: r)
  define s6 where "s6 = snd (intake_run x s (take 6 msgs))"
  have six: "\<forall>(now, m, peer) \<in> set (take 6 msgs).
      np_sp_hash m = k \<and> block_eligible x (constants s) m sp"
    using assms(4) by (auto dest: in_set_takeD)
  have st6: "responses_for s6 k = 6" "log s6 = log s"
    using intake_run_eligible_state [OF assms(1) six] assms(3) r by (simp_all add: s6_def)
  obtain now m peer where last: "msgs ! 6 = (now, m, peer)" by (cases "msgs ! 6")
  have l: "6 < length msgs" using assms(3) by simp
  have split: "msgs = take 6 msgs @ [(now, m, peer)]"
  proof -
    have "drop 6 msgs = msgs ! 6 # drop (Suc 6) msgs"
      using Cons_nth_drop_Suc [OF l] by simp
    then have "drop 6 msgs = [(now, m, peer)]" using assms(3) last by simp
    then show ?thesis using append_take_drop_id [of 6 msgs] by simp
  qed
  have "(now, m, peer) \<in> set msgs" using nth_mem [OF l] last by simp
  then have mk: "np_sp_hash m = k" using assms(4) by auto
  have cap: "5 < responses_for s6 (np_sp_hash m)" using st6 mk by simp
  have "snd (intake_run x s msgs) = snd (intake_run x s6 [(now, m, peer)])"
    using snd_intake_run_append [of x s "take 6 msgs" "[(now, m, peer)]"] split
    by (simp add: s6_def)
  also have "\<dots> = snd (new_proof_of_space x now s6 m peer)"
    by (simp split: prod.splits)
  also have "\<dots> = s6\<lparr>log := log s6 @ [(INFO, ''Surpassed max_pos_per_sp PoSpace for one SP'')]\<rparr>"
    using intake_over_cap [OF cap, of x now peer] by simp
  finally have fin: "snd (intake_run x s msgs) =
      s6\<lparr>log := log s @ [(INFO, ''Surpassed max_pos_per_sp PoSpace for one SP'')]\<rparr>"
    using st6 by simp
  show ?thesis using outs bound st6(2) fin unfolding s6_def by blast
qed

theorem intake_seven_proofs_witness:
  "sps (demo_farmer\<lparr>sps := [''cc'' \<mapsto> [demo_sp]]\<rparr>) ''cc'' = Some [demo_sp]
   \<and> number_of_responses (demo_farmer\<lparr>sps := [''cc'' \<mapsto> [demo_sp]]\<rparr>) ''cc'' = None
   \<and> fst (intake_run demo_ext (demo_farmer\<lparr>sps := [''cc'' \<mapsto> [demo_sp]]\<rparr>)
         (replicate 7 (0, demo_new_pos, demo_peer))) =
       replicate 6 (Returned (Some (signature_request demo_new_pos demo_sp))) @ [Returned None]
   \<and> log (snd (intake_run demo_ext (demo_farmer\<lparr>sps := [''cc'' \<mapsto> [demo_sp]]\<rparr>)
         (replicate 7 (0, demo_new_pos, demo_peer)))) =
       [(INFO, ''Surpassed max_pos_per_sp PoSpace for one SP'')]"
proof -
  let ?s = "demo_farmer\<lparr>sps := [''cc'' \<mapsto> [demo_sp]]\<rparr>"
  let ?msgs = "replicate 7 (0::nat, demo_new_pos, demo_peer)"
  have a: "sps ?s ''cc'' = Some [demo_sp]" by simp
  have b: "number_of_responses ?s ''cc'' = None"
    by (simp add: demo_farmer_def)
  have c: "\<forall>(now, m, peer) \<in> set ?msgs.
      np_sp_hash m = ''cc'' \<and> block_eligible demo_ext (constants ?s) m demo_sp"
    using demo_eligible by (simp add: demo_new_pos_def)
  have l: "length ?msgs = 7" by simp
  have e: "log ?s = []" by (simp add: demo_farmer_def)
  note th = intake_seven_proofs [OF a _ l c]
  have outs: "fst (intake_run demo_ext ?s ?msgs) =
       replicate 6 (Returned (Some (signature_request demo_new_pos demo_sp))) @ [Returned None]"
    using th b by (simp add: eval_nat_numeral)
  have "snd (intake_run demo_ext ?s ?msgs) =
        (snd (intake_run demo_ext ?s (take 6 ?msgs)))
          \<lparr>log := log ?s @ [(INFO, ''Surpassed max_pos_per_sp PoSpace for one SP'')]\<rparr>"
    using th b by blast
  then have "log (snd (intake_run demo_ext ?s ?msgs)) =
      log ?s @ [(INFO, ''Surpassed max_pos_per_sp PoSpace for one SP'')]"
    by simp
  then show ?thesis using a b outs e by simp
qed

subsection \<open>new_proof_of_space on a key that is not registered\<close>

text \<open>
  The claim that such a message leaves the counters and time stamps as they were fails:
  lines 38 to 40 create the counter of the key, and stamp its time, before the registry
  is looked at.
\<close>

theorem new_proof_of_space_unregistered_counterexample:
  "sps demo_farmer (np_sp_hash demo_new_pos) = None
   \<and> number_of_responses demo_farmer ''cc'' = None
   \<and> cache_add_time demo_farmer ''cc'' = None
   \<and> number_of_responses
        (snd (new_proof_of_space demo_ext 5 demo_farmer demo_new_pos demo_peer)) ''cc'' = Some 0
   \<and> cache_add_time
        (snd (new_proof_of_space demo_ext 5 demo_farmer demo_new_pos demo_peer)) ''cc'' = Some 5"
  by (simp add: new_proof_of_space_def Let_def log_add_def max_pos_per_sp_def demo_farmer_def
      demo_new_pos_def)

text \<open>
  C4, amended. For a NewProofOfSpace whose \<open>sp_hash\<close> is not a key of \<open>sps\<close> the
  handler returns \<open>None\<close> and sends nothing. If the key has a counter, the only change
  is one log entry (the WARNING of the unknown signage point, or the INFO of the cap when
  the counter is above 5). If it has none, the counter is created with the value 0 and
  the key's time stamp is set to the current time; the registry, the proof index and the
  quality index are as before in both cases.
\<close>

theorem new_proof_of_space_unregistered:
  assumes "sps s (np_sp_hash m) = None"
  shows "new_proof_of_space x now s m peer =
    (case number_of_responses s (np_sp_hash m) of
       None \<Rightarrow>
         (Returned None,
          s\<lparr>number_of_responses := (number_of_responses s)(np_sp_hash m \<mapsto> 0),
            cache_add_time := (cache_add_time s)(np_sp_hash m \<mapsto> now),
            log := log s @
              [(WARNING, ''Received response for a signage point that we do not have'')]\<rparr>)
     | Some n \<Rightarrow>
         (Returned None,
          s\<lparr>log := log s @
              [if n > 5 then (INFO, ''Surpassed max_pos_per_sp PoSpace for one SP'')
               else (WARNING, ''Received response for a signage point that we do not have'')]\<rparr>))"
  using assms
  by (simp add: new_proof_of_space_def Let_def log_add_def max_pos_per_sp_def split: option.splits)

theorem new_proof_of_space_unregistered_witness:
  "sps demo_farmer (np_sp_hash demo_new_pos) = None
   \<and> new_proof_of_space demo_ext 5 demo_farmer demo_new_pos demo_peer =
       (Returned None,
        demo_farmer\<lparr>number_of_responses := [''cc'' \<mapsto> 0], cache_add_time := [''cc'' \<mapsto> 5],
          log := [(WARNING, ''Received response for a signage point that we do not have'')]\<rparr>)
   \<and> sps (demo_farmer\<lparr>number_of_responses := [''cc'' \<mapsto> 6]\<rparr>) (np_sp_hash demo_new_pos) = None
   \<and> new_proof_of_space demo_ext 5 (demo_farmer\<lparr>number_of_responses := [''cc'' \<mapsto> 6]\<rparr>)
         demo_new_pos demo_peer =
       (Returned None,
        demo_farmer\<lparr>number_of_responses := [''cc'' \<mapsto> 6],
          log := [(INFO, ''Surpassed max_pos_per_sp PoSpace for one SP'')]\<rparr>)"
proof -
  have a: "sps demo_farmer (np_sp_hash demo_new_pos) = None" by (simp add: demo_farmer_def)
  have b: "sps (demo_farmer\<lparr>number_of_responses := [''cc'' \<mapsto> 6]\<rparr>) (np_sp_hash demo_new_pos)
      = None"
    by (simp add: demo_farmer_def)
  have k: "np_sp_hash demo_new_pos = ''cc''" by (simp add: demo_new_pos_def)
  have n: "number_of_responses demo_farmer = Map.empty" "cache_add_time demo_farmer = Map.empty"
    "log demo_farmer = []"
    by (simp_all add: demo_farmer_def)
  from new_proof_of_space_unregistered [OF a, of demo_ext 5 demo_peer]
    new_proof_of_space_unregistered [OF b, of demo_ext 5 demo_peer] a b
  show ?thesis by (simp add: k n)
qed

subsection \<open>Proof intake reads the first signage point of the bucket only\<close>

lemma pool_partial_response_sps:
  "pool_partial_response (s\<lparr>sps := r\<rparr>) res =
     (fst (pool_partial_response s res), (snd (pool_partial_response s res))\<lparr>sps := r\<rparr>)"
  by (simp add: pool_partial_response_def Let_def log_add_def
      split: submit_result.splits option.splits)

lemma pool_partial_prepare_sps:
  "pool_partial_prepare x now (s\<lparr>sps := r\<rparr>) m peer pk q =
     map_sum (\<lambda>(out, s'). (out, s'\<lparr>sps := r\<rparr>)) (\<lambda>(sub, s'). (sub, s'\<lparr>sps := r\<rparr>))
       (pool_partial_prepare x now s m peer pk q)"
  by (simp add: pool_partial_prepare_def Let_def log_add_def emit_def
      split: harvester_reply.splits list.splits sum.splits option.splits prod.splits)

lemma process_pool_sps:
  "process_new_proof_of_space_for_pool x now (s\<lparr>sps := r\<rparr>) m peer pk q =
     (fst (process_new_proof_of_space_for_pool x now s m peer pk q),
      (snd (process_new_proof_of_space_for_pool x now s m peer pk q))\<lparr>sps := r\<rparr>)"
  by (simp add: process_new_proof_of_space_for_pool_def pool_partial_prepare_sps
      pool_partial_response_sps split: sum.splits prod.splits)

lemma new_proof_of_space_body_sps:
  "new_proof_of_space_body x now (s\<lparr>sps := r\<rparr>) m peer sp =
     (fst (new_proof_of_space_body x now s m peer sp),
      (snd (new_proof_of_space_body x now s m peer sp))\<lparr>sps := r\<rparr>)"
proof -
  have pool: "process_new_proof_of_space_for_pool x now
        (s\<lparr>sps := r, number_of_responses := c\<rparr>) m peer pk q =
      (fst (process_new_proof_of_space_for_pool x now (s\<lparr>number_of_responses := c\<rparr>) m peer pk q),
       (snd (process_new_proof_of_space_for_pool x now (s\<lparr>number_of_responses := c\<rparr>) m peer pk q))
         \<lparr>sps := r\<rparr>)" for c pk q
  proof -
    have comm: "s\<lparr>sps := r, number_of_responses := c\<rparr> = s\<lparr>number_of_responses := c, sps := r\<rparr>"
      by (cases s) simp
    show ?thesis unfolding comm by (rule process_pool_sps)
  qed
  show ?thesis
    by (simp add: new_proof_of_space_body_def Let_def log_add_def pool
        split: option.splits prod.splits outcome.splits)
qed

text \<open>
  C10. With a bucket \<open>sp # rest\<close> under the proof's key, the handler does the same for
  every other tail \<open>rest'\<close> of the bucket: the same outcome, the same final state (but
  for the registry it was given). The counter of the key stays or grows by one. A message
  returned is the RequestSignatures built from the first entry \<open>sp\<close>, and it is
  returned exactly on the strength of \<open>sp\<close>'s difficulty and sub-slot iterations: when
  the proof is block-eligible for \<open>sp\<close> and the counter is at most 5, it is returned.
\<close>

theorem new_proof_of_space_first_sp_only:
  assumes "sps s (np_sp_hash m) = Some (sp # rest)"
  shows "new_proof_of_space x now (s\<lparr>sps := (sps s)(np_sp_hash m \<mapsto> sp # rest')\<rparr>) m peer =
      (fst (new_proof_of_space x now s m peer),
       (snd (new_proof_of_space x now s m peer))\<lparr>sps := (sps s)(np_sp_hash m \<mapsto> sp # rest')\<rparr>)
    \<and> (responses_for (snd (new_proof_of_space x now s m peer)) (np_sp_hash m) =
          responses_for s (np_sp_hash m)
       \<or> responses_for (snd (new_proof_of_space x now s m peer)) (np_sp_hash m) =
          responses_for s (np_sp_hash m) + 1)
    \<and> (\<forall>msg. fst (new_proof_of_space x now s m peer) = Returned (Some msg) \<longrightarrow>
          msg = signature_request m sp \<and> block_eligible x (constants s) m sp)
    \<and> (block_eligible x (constants s) m sp \<and> responses_for s (np_sp_hash m) \<le> 5 \<longrightarrow>
          fst (new_proof_of_space x now s m peer) = Returned (Some (signature_request m sp)))"
proof -
  have body: "new_proof_of_space_body x now
        (s\<lparr>sps := r, number_of_responses := c, cache_add_time := t\<rparr>) m peer sp =
      (fst (new_proof_of_space_body x now (s\<lparr>number_of_responses := c, cache_add_time := t\<rparr>) m peer sp),
       (snd (new_proof_of_space_body x now (s\<lparr>number_of_responses := c, cache_add_time := t\<rparr>) m peer sp))
         \<lparr>sps := r\<rparr>)" for c t r
  proof -
    have comm: "s\<lparr>sps := r, number_of_responses := c, cache_add_time := t\<rparr> =
        s\<lparr>number_of_responses := c, cache_add_time := t, sps := r\<rparr>"
      by (cases s) simp
    show ?thesis unfolding comm by (rule new_proof_of_space_body_sps)
  qed
  have tail: "new_proof_of_space x now (s\<lparr>sps := (sps s)(np_sp_hash m \<mapsto> sp # rest')\<rparr>) m peer =
      (fst (new_proof_of_space x now s m peer),
       (snd (new_proof_of_space x now s m peer))\<lparr>sps := (sps s)(np_sp_hash m \<mapsto> sp # rest')\<rparr>)"
    using assms
    by (simp add: new_proof_of_space_def Let_def log_add_def body new_proof_of_space_body_sps
        split: option.splits)
  obtain out s' where st: "new_proof_of_space x now s m peer = (out, s')"
    by (cases "new_proof_of_space x now s m peer")
  note c = intake_counter [OF st]
  have once: "responses_for s' (np_sp_hash m) = responses_for s (np_sp_hash m)
       \<or> responses_for s' (np_sp_hash m) = responses_for s (np_sp_hash m) + 1"
    using c by blast
  have req: "\<forall>msg. out = Returned (Some msg) \<longrightarrow>
          msg = signature_request m sp \<and> block_eligible x (constants s) m sp"
  proof (intro allI impI)
    fix msg assume o: "out = Returned (Some msg)"
    with c have "\<exists>sp' rest'. sps s (np_sp_hash m) = Some (sp' # rest')
                    \<and> out = Returned (Some (signature_request m sp'))
                    \<and> block_eligible x (constants s) m sp'"
      by blast
    then show "msg = signature_request m sp \<and> block_eligible x (constants s) m sp"
      using assms o by auto
  qed
  have elig: "block_eligible x (constants s) m sp \<and> responses_for s (np_sp_hash m) \<le> 5 \<longrightarrow>
          out = Returned (Some (signature_request m sp))"
    using intake_eligible [of s m sp rest x now peer] assms st by simp
  have fs: "fst (new_proof_of_space x now s m peer) = out"
    "snd (new_proof_of_space x now s m peer) = s'"
    using st by simp_all
  show ?thesis unfolding fs using tail [unfolded fs] once req elig by blast
qed

theorem new_proof_of_space_first_sp_only_witness:
  "sps (demo_farmer\<lparr>sps := [''cc'' \<mapsto> [demo_sp, demo_sp\<lparr>sp_reward_chain_sp := ''rc2'',
           sp_difficulty := 2000\<rparr>]]\<rparr>) (np_sp_hash demo_new_pos) =
      Some [demo_sp, demo_sp\<lparr>sp_reward_chain_sp := ''rc2'', sp_difficulty := 2000\<rparr>]
   \<and> fst (new_proof_of_space demo_ext 5
        (demo_farmer\<lparr>sps := [''cc'' \<mapsto> [demo_sp, demo_sp\<lparr>sp_reward_chain_sp := ''rc2'',
           sp_difficulty := 2000\<rparr>]]\<rparr>) demo_new_pos demo_peer) =
      Returned (Some (signature_request demo_new_pos demo_sp))
   \<and> fst (new_proof_of_space demo_ext 5
        (demo_farmer\<lparr>sps := [''cc'' \<mapsto> [demo_sp]]\<rparr>) demo_new_pos demo_peer) =
      Returned (Some (signature_request demo_new_pos demo_sp))"
proof -
  let ?other = "demo_sp\<lparr>sp_reward_chain_sp := ''rc2'', sp_difficulty := 2000\<rparr>"
  let ?s = "demo_farmer\<lparr>sps := [''cc'' \<mapsto> [demo_sp, ?other]]\<rparr>"
  have k: "np_sp_hash demo_new_pos = ''cc''" by (simp add: demo_new_pos_def)
  have a: "sps ?s (np_sp_hash demo_new_pos) = Some (demo_sp # [?other])" by (simp add: k)
  have e: "block_eligible demo_ext (constants ?s) demo_new_pos demo_sp"
    using demo_eligible by simp
  have r: "responses_for ?s (np_sp_hash demo_new_pos) \<le> 5"
    by (simp add: responses_for_def demo_farmer_def)
  note th = new_proof_of_space_first_sp_only [OF a, of demo_ext 5 "[]" demo_peer]
  from th have eq: "new_proof_of_space demo_ext 5
        (?s\<lparr>sps := (sps ?s)(np_sp_hash demo_new_pos \<mapsto> [demo_sp])\<rparr>) demo_new_pos demo_peer =
      (fst (new_proof_of_space demo_ext 5 ?s demo_new_pos demo_peer),
       (snd (new_proof_of_space demo_ext 5 ?s demo_new_pos demo_peer))
         \<lparr>sps := (sps ?s)(np_sp_hash demo_new_pos \<mapsto> [demo_sp])\<rparr>)"
    by (rule conjunct1)
  from th e r
  have f: "fst (new_proof_of_space demo_ext 5 ?s demo_new_pos demo_peer) =
      Returned (Some (signature_request demo_new_pos demo_sp))"
    by blast
  have st: "?s\<lparr>sps := (sps ?s)(np_sp_hash demo_new_pos \<mapsto> [demo_sp])\<rparr> =
      demo_farmer\<lparr>sps := [''cc'' \<mapsto> [demo_sp]]\<rparr>"
    by (simp add: k)
  have g: "fst (new_proof_of_space demo_ext 5 (demo_farmer\<lparr>sps := [''cc'' \<mapsto> [demo_sp]]\<rparr>)
        demo_new_pos demo_peer) = Returned (Some (signature_request demo_new_pos demo_sp))"
    using eq [unfolded st] f by simp
  have a': "sps ?s (np_sp_hash demo_new_pos) = Some [demo_sp, ?other]" by (simp add: k)
  show ?thesis using a' f g by blast
qed

subsection \<open>The pool path: what is submitted, and what the answer changes\<close>

lemma pool_partial_prepare_Inr:
  assumes "pool_partial_prepare x now s m peer pk q = Inr (sub, s1)"
  shows "calculate_iterations_quality x (DIFFICULTY_CONSTANT_FACTOR (constants s)) q
        (pos_size (np_proof m)) (pool_difficulty s) (np_sp_hash m) < iters_limit s
    \<and> sbp_payload sub =
        \<lparr>pp_proof_of_space = np_proof m,
         pp_difficulty = pool_difficulty s,
         pp_sp_hash = np_sp_hash m,
         pp_end_of_sub_slot = (np_signage_point_index m = 0),
         pp_payout_address = pool_payout_address s\<rparr>
    \<and> effects s1 = effects s @
        [PeerRequestSignatures (peer_node_id peer)
           \<lparr>rq_plot_identifier = np_plot_identifier m,
            rq_challenge_hash = np_challenge_hash m,
            rq_sp_hash = np_sp_hash m,
            rq_messages = [get_hash x (sbp_payload sub)]\<rparr>,
         PoolSubmitPartial sub]
    \<and> pool_difficulty s1 = pool_difficulty s"
  using assms
  by (auto simp add: pool_partial_prepare_def Let_def log_add_def emit_def
      split: harvester_reply.splits list.splits sum.splits option.splits prod.splits if_splits)

lemma pool_partial_prepare_state:
  assumes "pool_partial_prepare x now s m peer pk q = Inr (sub, s1)"
  shows "s1 = s\<lparr>last_pool_partial_submit_timestamp := now,
      log := log s @ [(DEBUG, ''Submitting partial ..'')],
      effects := effects s @
        [PeerRequestSignatures (peer_node_id peer)
           \<lparr>rq_plot_identifier = np_plot_identifier m,
            rq_challenge_hash = np_challenge_hash m,
            rq_sp_hash = np_sp_hash m,
            rq_messages = [get_hash x (sbp_payload sub)]\<rparr>,
         PoolSubmitPartial sub]\<rparr>"
  using assms
  by (auto simp add: pool_partial_prepare_def Let_def log_add_def emit_def
      split: harvester_reply.splits list.splits sum.splits option.splits prod.splits if_splits)

lemma pool_partial_prepare_Inl:
  assumes "pool_partial_prepare x now s m peer pk q = Inl (out, s1)"
  shows "\<exists>new. effects s1 = effects s @ new \<and> (\<forall>sub. PoolSubmitPartial sub \<notin> set new)
    \<and> (new \<noteq> [] \<longrightarrow>
         calculate_iterations_quality x (DIFFICULTY_CONSTANT_FACTOR (constants s)) q
           (pos_size (np_proof m)) (pool_difficulty s) (np_sp_hash m) < iters_limit s)"
  using assms
  by (auto simp add: pool_partial_prepare_def Let_def log_add_def emit_def
      split: harvester_reply.splits list.splits sum.splits option.splits prod.splits if_splits)

lemma pool_partial_response_effects:
  "effects (snd (pool_partial_response s res)) = effects s"
  by (simp add: pool_partial_response_def Let_def log_add_def
      split: submit_result.splits option.splits)

lemma pool_partial_response_difficulty:
  "pool_partial_response s res = (out, s') \<Longrightarrow>
   (res = SubmitFailed \<longrightarrow>
      out = Returned None \<and> s' = s\<lparr>log := log s @ [(ERROR, ''Error submitting partial to pool'')]\<rparr>)
   \<and> (\<forall>r d. res = SubmitResponse r \<and> pr_current_difficulty r = Some d
          \<and> (pr_error_code r = Some 5 \<or> pr_error_code r = None) \<longrightarrow>
        out = Returned None \<and> pool_difficulty s' = d)
   \<and> (\<forall>r c. res = SubmitResponse r \<and> pr_error_code r = Some c \<and> c \<noteq> 5 \<longrightarrow>
        pool_difficulty s' = pool_difficulty s)"
  by (auto simp add: pool_partial_response_def Let_def log_add_def
      split: submit_result.splits option.splits if_splits)

lemma process_pool_submits:
  assumes "process_new_proof_of_space_for_pool x now s m peer pk q = (out, s')"
  shows "\<exists>new. effects s' = effects s @ new \<and>
    (new \<noteq> [] \<longrightarrow>
       calculate_iterations_quality x (DIFFICULTY_CONSTANT_FACTOR (constants s)) q
         (pos_size (np_proof m)) (pool_difficulty s) (np_sp_hash m) < iters_limit s)
    \<and> (\<forall>sub. PoolSubmitPartial sub \<in> set new \<longrightarrow>
       sbp_payload sub =
          \<lparr>pp_proof_of_space = np_proof m,
           pp_difficulty = pool_difficulty s,
           pp_sp_hash = np_sp_hash m,
           pp_end_of_sub_slot = (np_signage_point_index m = 0),
           pp_payout_address = pool_payout_address s\<rparr>)"
proof (cases "pool_partial_prepare x now s m peer pk q")
  case (Inl a)
  then have "pool_partial_prepare x now s m peer pk q = Inl (out, s')"
    using assms by (simp add: process_new_proof_of_space_for_pool_def)
  from pool_partial_prepare_Inl [OF this] show ?thesis by blast
next
  case (Inr b)
  obtain sub0 s1 where b: "b = (sub0, s1)" by (cases b)
  have p: "pool_partial_prepare x now s m peer pk q = Inr (sub0, s1)" using Inr b by simp
  have "s' = snd (pool_partial_response s1 (pool_submit_partial x sub0))"
    using assms p by (simp add: process_new_proof_of_space_for_pool_def)
  then have e: "effects s' = effects s1" by (simp add: pool_partial_response_effects)
  note r = pool_partial_prepare_Inr [OF p]
  show ?thesis
  proof (intro exI conjI allI impI)
    show "effects s' = effects s @
        [PeerRequestSignatures (peer_node_id peer)
           \<lparr>rq_plot_identifier = np_plot_identifier m,
            rq_challenge_hash = np_challenge_hash m,
            rq_sp_hash = np_sp_hash m,
            rq_messages = [get_hash x (sbp_payload sub0)]\<rparr>,
         PoolSubmitPartial sub0]"
      using e r by simp
  next
    show "calculate_iterations_quality x (DIFFICULTY_CONSTANT_FACTOR (constants s)) q
         (pos_size (np_proof m)) (pool_difficulty s) (np_sp_hash m) < iters_limit s"
      using r by simp
  next
    fix sub
    assume "PoolSubmitPartial sub \<in> set
        [PeerRequestSignatures (peer_node_id peer)
           \<lparr>rq_plot_identifier = np_plot_identifier m,
            rq_challenge_hash = np_challenge_hash m,
            rq_sp_hash = np_sp_hash m,
            rq_messages = [get_hash x (sbp_payload sub0)]\<rparr>,
         PoolSubmitPartial sub0]"
    then have s: "sub = sub0" by simp
    show "sbp_payload sub =
          \<lparr>pp_proof_of_space = np_proof m,
           pp_difficulty = pool_difficulty s,
           pp_sp_hash = np_sp_hash m,
           pp_end_of_sub_slot = (np_signage_point_index m = 0),
           pp_payout_address = pool_payout_address s\<rparr>"
      using r s by simp
  qed
qed

lemma body_submits:
  assumes "new_proof_of_space_body x now s m peer sp = (out, s')"
  shows "\<exists>new. effects s' = effects s @ new \<and>
    (new \<noteq> [] \<longrightarrow>
       pos_pool_public_key (np_proof m) \<noteq> None \<and> pooling_enabled s
       \<and> (\<exists>q. verify_and_get_quality_string x (np_proof m) (constants s)
                 (np_challenge_hash m) (np_sp_hash m) = Some q
              \<and> calculate_iterations_quality x (DIFFICULTY_CONSTANT_FACTOR (constants s)) q
                  (pos_size (np_proof m)) (pool_difficulty s) (np_sp_hash m) < iters_limit s))
    \<and> (\<forall>sub. PoolSubmitPartial sub \<in> set new \<longrightarrow>
       sbp_payload sub =
          \<lparr>pp_proof_of_space = np_proof m,
           pp_difficulty = pool_difficulty s,
           pp_sp_hash = np_sp_hash m,
           pp_end_of_sub_slot = (np_signage_point_index m = 0),
           pp_payout_address = pool_payout_address s\<rparr>)"
proof (cases "\<exists>q n pk. verify_and_get_quality_string x (np_proof m) (constants s)
                 (np_challenge_hash m) (np_sp_hash m) = Some q
         \<and> number_of_responses s (np_sp_hash m) = Some n
         \<and> \<not> block_eligible x (constants s) m sp
         \<and> pos_pool_public_key (np_proof m) = Some pk \<and> pooling_enabled s")
  case True
  then obtain q n pk where h: "verify_and_get_quality_string x (np_proof m) (constants s)
                 (np_challenge_hash m) (np_sp_hash m) = Some q"
      "number_of_responses s (np_sp_hash m) = Some n"
      "\<not> block_eligible x (constants s) m sp"
      "pos_pool_public_key (np_proof m) = Some pk" "pooling_enabled s"
    by blast
  let ?s1 = "s\<lparr>number_of_responses := (number_of_responses s)(np_sp_hash m \<mapsto> n + 1)\<rparr>"
  obtain o2 s2 where p: "process_new_proof_of_space_for_pool x now ?s1 m peer pk q = (o2, s2)"
    by (cases "process_new_proof_of_space_for_pool x now ?s1 m peer pk q")
  have "s' = s2"
    using assms h p
    by (auto simp add: new_proof_of_space_body_def block_eligible_def Let_def
        split: outcome.splits)
  then show ?thesis using process_pool_submits [OF p] h by simp
next
  case False
  then have "effects s' = effects s" using assms
    by (auto simp add: new_proof_of_space_body_def block_eligible_def Let_def log_add_def
        split: option.splits if_splits)
  then show ?thesis by simp
qed

lemma new_proof_of_space_loop_cases:
  assumes "new_proof_of_space_loop x now s m peer bucket = (out, s')"
  shows "(bucket = [] \<and> out = Returned None \<and> s' = s)
    \<or> (\<exists>sp rest. bucket = sp # rest \<and> new_proof_of_space_body x now s m peer sp = (out, s'))"
  using assms by (cases bucket) auto

text \<open>
  C7. While \<open>new_proof_of_space\<close> handles a message, it calls a collaborator (the
  harvester for the signature of a partial, the pool for its submission) only when the
  proof of the message carries a pool public key, pooling is enabled, the proof verifies
  and its required iterations under the current pool difficulty are strictly below
  \<open>iters_limit\<close>. The payload of a partial submitted holds the proof, the current pool
  difficulty, the signage-point hash, the end-of-subslot flag (true exactly when the
  message's \<open>signage_point_index\<close> is 0) and the pool payout address. When the required
  iterations are not below \<open>iters_limit\<close>, the pool path only logs (INFO) and returns.
\<close>

theorem pool_partial_only_when_eligible:
  assumes "new_proof_of_space x now s m peer = (out, s')"
  shows "(\<exists>new. effects s' = effects s @ new \<and>
      (new \<noteq> [] \<longrightarrow>
         pos_pool_public_key (np_proof m) \<noteq> None \<and> pooling_enabled s
         \<and> (\<exists>q. verify_and_get_quality_string x (np_proof m) (constants s)
                   (np_challenge_hash m) (np_sp_hash m) = Some q
                \<and> calculate_iterations_quality x (DIFFICULTY_CONSTANT_FACTOR (constants s)) q
                    (pos_size (np_proof m)) (pool_difficulty s) (np_sp_hash m) < iters_limit s))
      \<and> (\<forall>sub. PoolSubmitPartial sub \<in> set new \<longrightarrow>
         sbp_payload sub =
            \<lparr>pp_proof_of_space = np_proof m,
             pp_difficulty = pool_difficulty s,
             pp_sp_hash = np_sp_hash m,
             pp_end_of_sub_slot = (np_signage_point_index m = 0),
             pp_payout_address = pool_payout_address s\<rparr>))
    \<and> (\<forall>pk q. iters_limit s \<le>
            calculate_iterations_quality x (DIFFICULTY_CONSTANT_FACTOR (constants s)) q
              (pos_size (np_proof m)) (pool_difficulty s) (np_sp_hash m) \<longrightarrow>
          process_new_proof_of_space_for_pool x now s m peer pk q =
            (Returned None,
             s\<lparr>log := log s @
                 [(INFO, ''Proof of space not good enough for pool difficulty'')]\<rparr>))"
proof -
  let ?k = "np_sp_hash m"
  let ?s1 = "if number_of_responses s ?k = None
               then s\<lparr>number_of_responses := (number_of_responses s)(?k \<mapsto> 0),
                      cache_add_time := (cache_add_time s)(?k \<mapsto> now)\<rparr>
               else s"
  have s1: "effects ?s1 = effects s" "constants ?s1 = constants s"
    "pool_difficulty ?s1 = pool_difficulty s" "iters_limit ?s1 = iters_limit s"
    "pooling_enabled ?s1 = pooling_enabled s" "pool_payout_address ?s1 = pool_payout_address s"
    by simp_all
  have noop: "process_new_proof_of_space_for_pool x now s m peer pk q =
            (Returned None,
             s\<lparr>log := log s @
                 [(INFO, ''Proof of space not good enough for pool difficulty'')]\<rparr>)"
    if "iters_limit s \<le>
            calculate_iterations_quality x (DIFFICULTY_CONSTANT_FACTOR (constants s)) q
              (pos_size (np_proof m)) (pool_difficulty s) (np_sp_hash m)" for pk q
    using that
    by (simp add: process_new_proof_of_space_for_pool_def pool_partial_prepare_def log_add_def)
  have "(\<exists>sp rest. sps ?s1 ?k = Some (sp # rest)
           \<and> new_proof_of_space_body x now ?s1 m peer sp = (out, s'))
        \<or> effects s' = effects s"
  proof (cases "sps s ?k")
    case None
    then show ?thesis using assms
      by (auto simp add: new_proof_of_space_def Let_def log_add_def max_pos_per_sp_def
          split: option.splits if_splits)
  next
    case (Some bucket)
    show ?thesis
    proof (cases "responses_for s ?k > 5")
      case True
      then show ?thesis using assms intake_over_cap [OF True, of x now peer] by auto
    next
      case False
      have "new_proof_of_space_loop x now ?s1 m peer bucket = (out, s')"
      proof (cases "number_of_responses s ?k")
        case None
        then show ?thesis using assms False \<open>sps s ?k = Some bucket\<close>
          by (simp add: new_proof_of_space_def Let_def max_pos_per_sp_def responses_for_def)
      next
        case (Some n)
        then show ?thesis using assms False \<open>sps s ?k = Some bucket\<close>
          by (simp add: new_proof_of_space_def Let_def max_pos_per_sp_def responses_for_def)
      qed
      from new_proof_of_space_loop_cases [OF this] Some show ?thesis
        by auto
    qed
  qed
  then have sub: "\<exists>new. effects s' = effects s @ new \<and>
      (new \<noteq> [] \<longrightarrow>
         pos_pool_public_key (np_proof m) \<noteq> None \<and> pooling_enabled s
         \<and> (\<exists>q. verify_and_get_quality_string x (np_proof m) (constants s)
                   (np_challenge_hash m) (np_sp_hash m) = Some q
                \<and> calculate_iterations_quality x (DIFFICULTY_CONSTANT_FACTOR (constants s)) q
                    (pos_size (np_proof m)) (pool_difficulty s) (np_sp_hash m) < iters_limit s))
      \<and> (\<forall>sub. PoolSubmitPartial sub \<in> set new \<longrightarrow>
         sbp_payload sub =
            \<lparr>pp_proof_of_space = np_proof m,
             pp_difficulty = pool_difficulty s,
             pp_sp_hash = np_sp_hash m,
             pp_end_of_sub_slot = (np_signage_point_index m = 0),
             pp_payout_address = pool_payout_address s\<rparr>)"
  proof
    assume "\<exists>sp rest. sps ?s1 ?k = Some (sp # rest)
           \<and> new_proof_of_space_body x now ?s1 m peer sp = (out, s')"
    then obtain sp where b: "new_proof_of_space_body x now ?s1 m peer sp = (out, s')" by blast
    from body_submits [OF b] show ?thesis unfolding s1 .
  next
    assume "effects s' = effects s"
    then show ?thesis by simp
  qed
  show ?thesis using sub noop by blast
qed

theorem pool_partial_only_when_eligible_witness:
  "PoolSubmitPartial
     \<lparr>sbp_payload =
        \<lparr>pp_proof_of_space = demo_pos, pp_difficulty = 10, pp_sp_hash = ''cc'',
         pp_end_of_sub_slot = True, pp_payout_address = ''payout''\<rparr>,
      sbp_aggregate_signature = ''s''\<rparr>
     \<in> set (effects (snd (new_proof_of_space demo_ext 5
           (demo_farmer\<lparr>sps := [''cc'' \<mapsto> [demo_sp\<lparr>sp_difficulty := 2000\<rparr>]],
              pooling_enabled := True\<rparr>)
           (demo_new_pos\<lparr>np_signage_point_index := 0\<rparr>) demo_peer)))
   \<and> pooling_enabled (demo_farmer\<lparr>sps := [''cc'' \<mapsto> [demo_sp\<lparr>sp_difficulty := 2000\<rparr>]],
              pooling_enabled := True\<rparr>)
   \<and> pos_pool_public_key (np_proof (demo_new_pos\<lparr>np_signage_point_index := 0\<rparr>)) = Some ''poolpk''
   \<and> (10::nat) < 100"
proof -
  let ?s = "demo_farmer\<lparr>sps := [''cc'' \<mapsto> [demo_sp\<lparr>sp_difficulty := 2000\<rparr>]],
              pooling_enabled := True\<rparr>"
  let ?m = "demo_new_pos\<lparr>np_signage_point_index := 0\<rparr>"
  let ?sub = "\<lparr>sbp_payload =
        \<lparr>pp_proof_of_space = demo_pos, pp_difficulty = 10, pp_sp_hash = ''cc'',
         pp_end_of_sub_slot = True, pp_payout_address = ''payout''\<rparr>,
      sbp_aggregate_signature = ''s''\<rparr>"
  obtain out s' where st: "new_proof_of_space demo_ext 5 ?s ?m demo_peer = (out, s')"
    by (cases "new_proof_of_space demo_ext 5 ?s ?m demo_peer")
  have eff: "effects s' =
      [PeerRequestSignatures ''harvester''
         \<lparr>rq_plot_identifier = ''plot1'', rq_challenge_hash = ''ch'', rq_sp_hash = ''cc'',
          rq_messages = [''h'']\<rparr>,
       PoolSubmitPartial ?sub]"
    using st
    by (auto simp add: new_proof_of_space_def new_proof_of_space_body_def
        process_new_proof_of_space_for_pool_def pool_partial_prepare_def
        pool_partial_response_def Let_def max_pos_per_sp_def
        demo_ext_def demo_farmer_def demo_new_pos_def demo_sp_def
        demo_pos_def demo_peer_def emit_def log_add_def)
  have e0: "effects ?s = []" by (simp add: demo_farmer_def)
  from pool_partial_only_when_eligible [OF st] e0 eff
  have "pos_pool_public_key (np_proof ?m) \<noteq> None \<and> pooling_enabled ?s
      \<and> sbp_payload ?sub =
            \<lparr>pp_proof_of_space = np_proof ?m,
             pp_difficulty = pool_difficulty ?s,
             pp_sp_hash = np_sp_hash ?m,
             pp_end_of_sub_slot = (np_signage_point_index ?m = 0),
             pp_payout_address = pool_payout_address ?s\<rparr>"
    by auto
  then show ?thesis using eff st
    by (simp add: demo_new_pos_def demo_pos_def)
qed

text \<open>
  C6. Once the partial has been handed to the pool client, \<open>pool_partial_prepare\<close>
  yields the partial and the state \<open>s1\<close> at the call: the state the handler started
  with, but for the time stamp of the submission, one DEBUG log entry and the two calls
  made (the signature request and the submission); the pool difficulty is still the one
  the handler started with. From there: a failure of the call is caught, the handler
  returns, and the state is \<open>s1\<close> with one more ERROR log entry and nothing else
  changed; a response that carries \<open>current_difficulty\<close> with error code 5, or with no
  error code, makes exactly that value the farmer's pool difficulty; a response with any
  other error code leaves the pool difficulty as it was.
\<close>

theorem pool_difficulty_follows_response:
  assumes "pool_partial_prepare x now s m peer pk q = Inr (sub, s1)"
  shows "process_new_proof_of_space_for_pool x now s m peer pk q =
      pool_partial_response s1 (pool_submit_partial x sub)
    \<and> s1 = s\<lparr>last_pool_partial_submit_timestamp := now,
        log := log s @ [(DEBUG, ''Submitting partial ..'')],
        effects := effects s @
          [PeerRequestSignatures (peer_node_id peer)
             \<lparr>rq_plot_identifier = np_plot_identifier m,
              rq_challenge_hash = np_challenge_hash m,
              rq_sp_hash = np_sp_hash m,
              rq_messages = [get_hash x (sbp_payload sub)]\<rparr>,
           PoolSubmitPartial sub]\<rparr>
    \<and> pool_difficulty s1 = pool_difficulty s
    \<and> (pool_submit_partial x sub = SubmitFailed \<longrightarrow>
         process_new_proof_of_space_for_pool x now s m peer pk q =
           (Returned None, s1\<lparr>log := log s1 @ [(ERROR, ''Error submitting partial to pool'')]\<rparr>))
    \<and> (\<forall>r d. pool_submit_partial x sub = SubmitResponse r \<and> pr_current_difficulty r = Some d
           \<and> (pr_error_code r = Some 5 \<or> pr_error_code r = None) \<longrightarrow>
         fst (process_new_proof_of_space_for_pool x now s m peer pk q) = Returned None
         \<and> pool_difficulty (snd (process_new_proof_of_space_for_pool x now s m peer pk q)) = d)
    \<and> (\<forall>r c. pool_submit_partial x sub = SubmitResponse r \<and> pr_error_code r = Some c \<and> c \<noteq> 5 \<longrightarrow>
         pool_difficulty (snd (process_new_proof_of_space_for_pool x now s m peer pk q)) =
           pool_difficulty s)"
proof -
  have p: "process_new_proof_of_space_for_pool x now s m peer pk q =
      pool_partial_response s1 (pool_submit_partial x sub)"
    using assms by (simp add: process_new_proof_of_space_for_pool_def)
  have d: "pool_difficulty s1 = pool_difficulty s"
    using pool_partial_prepare_Inr [OF assms] by simp
  obtain out s' where r: "pool_partial_response s1 (pool_submit_partial x sub) = (out, s')"
    by (cases "pool_partial_response s1 (pool_submit_partial x sub)")
  note h = pool_partial_response_difficulty [OF r]
  note st = pool_partial_prepare_state [OF assms]
  have "pool_partial_response s1 (pool_submit_partial x sub) =
      pool_partial_response s1 (pool_submit_partial x sub)
    \<and> pool_difficulty s1 = pool_difficulty s1
    \<and> (pool_submit_partial x sub = SubmitFailed \<longrightarrow>
         (out, s') =
           (Returned None, s1\<lparr>log := log s1 @ [(ERROR, ''Error submitting partial to pool'')]\<rparr>))
    \<and> (\<forall>r d. pool_submit_partial x sub = SubmitResponse r \<and> pr_current_difficulty r = Some d
           \<and> (pr_error_code r = Some 5 \<or> pr_error_code r = None) \<longrightarrow>
         out = Returned None \<and> pool_difficulty s' = d)
    \<and> (\<forall>r c. pool_submit_partial x sub = SubmitResponse r \<and> pr_error_code r = Some c \<and> c \<noteq> 5 \<longrightarrow>
         pool_difficulty s' = pool_difficulty s1)"
    using h by blast
  then show ?thesis unfolding p r fst_conv snd_conv d [symmetric]
    using st by blast
qed

theorem pool_difficulty_follows_response_witness:
  "pool_difficulty
     (snd (process_new_proof_of_space_for_pool demo_ext 5
        (demo_farmer\<lparr>pooling_enabled := True\<rparr>) demo_new_pos demo_peer ''poolpk'' ''q1'')) = 400
   \<and> fst (process_new_proof_of_space_for_pool demo_ext 5
        (demo_farmer\<lparr>pooling_enabled := True\<rparr>) demo_new_pos demo_peer ''poolpk'' ''q1'')
       = Returned None
   \<and> pool_difficulty (demo_farmer\<lparr>pooling_enabled := True\<rparr>) = 10
   \<and> fst (process_new_proof_of_space_for_pool
        (demo_ext\<lparr>pool_submit_partial := (\<lambda>sub. SubmitFailed)\<rparr>) 5
        (demo_farmer\<lparr>pooling_enabled := True\<rparr>) demo_new_pos demo_peer ''poolpk'' ''q1'')
       = Returned None
   \<and> pool_difficulty (snd (process_new_proof_of_space_for_pool
        (demo_ext\<lparr>pool_submit_partial := (\<lambda>sub. SubmitFailed)\<rparr>) 5
        (demo_farmer\<lparr>pooling_enabled := True\<rparr>) demo_new_pos demo_peer ''poolpk'' ''q1''))
       = 10"
proof -
  let ?s = "demo_farmer\<lparr>pooling_enabled := True\<rparr>"
  let ?x = "demo_ext\<lparr>pool_submit_partial := (\<lambda>sub. SubmitFailed)\<rparr>"
  have "\<exists>sub s1. pool_partial_prepare demo_ext 5 ?s demo_new_pos demo_peer ''poolpk'' ''q1''
      = Inr (sub, s1)"
    by (simp add: pool_partial_prepare_def Let_def demo_ext_def demo_farmer_def demo_new_pos_def
        demo_pos_def demo_peer_def emit_def log_add_def)
  then obtain sub s1 where
    p: "pool_partial_prepare demo_ext 5 ?s demo_new_pos demo_peer ''poolpk'' ''q1'' = Inr (sub, s1)"
    by blast
  have "\<exists>sub s1. pool_partial_prepare ?x 5 ?s demo_new_pos demo_peer ''poolpk'' ''q1''
      = Inr (sub, s1)"
    by (simp add: pool_partial_prepare_def Let_def demo_ext_def demo_farmer_def demo_new_pos_def
        demo_pos_def demo_peer_def emit_def log_add_def)
  then obtain sub' s1' where
    p': "pool_partial_prepare ?x 5 ?s demo_new_pos demo_peer ''poolpk'' ''q1'' = Inr (sub', s1')"
    by blast
  have r: "pool_submit_partial demo_ext sub =
      SubmitResponse \<lparr>pr_error_code = Some 5, pr_error_message = None,
        pr_current_difficulty = Some 400\<rparr>"
    by (simp add: demo_ext_def)
  have r': "pool_submit_partial ?x sub' = SubmitFailed" by simp
  have d: "pool_difficulty ?s = 10" by (simp add: demo_farmer_def)
  note a = pool_difficulty_follows_response [OF p]
  note b = pool_difficulty_follows_response [OF p']
  have 1: "fst (process_new_proof_of_space_for_pool demo_ext 5 ?s demo_new_pos demo_peer
        ''poolpk'' ''q1'') = Returned None
      \<and> pool_difficulty (snd (process_new_proof_of_space_for_pool demo_ext 5 ?s demo_new_pos
        demo_peer ''poolpk'' ''q1'')) = 400"
    using a [THEN conjunct2, THEN conjunct2, THEN conjunct2, THEN conjunct2, THEN conjunct1,
        rule_format,
        of "\<lparr>pr_error_code = Some 5, pr_error_message = None,
             pr_current_difficulty = Some 400\<rparr>" 400] r
    by simp
  have 2: "process_new_proof_of_space_for_pool ?x 5 ?s demo_new_pos demo_peer ''poolpk'' ''q1''
       = (Returned None, s1'\<lparr>log := log s1' @ [(ERROR, ''Error submitting partial to pool'')]\<rparr>)"
    using b r' by blast
  have 3: "pool_difficulty s1' = 10"
    using b [THEN conjunct2, THEN conjunct2, THEN conjunct1] d by simp
  show ?thesis using 1 2 3 d by simp
qed

subsection \<open>respond_signatures: which branch, and what is broadcast\<close>

lemma full_node_broadcasts_append:
  "full_node_broadcasts (es @ fs) = full_node_broadcasts es @ full_node_broadcasts fs"
  by (induction es rule: full_node_broadcasts.induct) simp_all

lemma sp_candidates_loop_two:
  assumes "rs_message_signatures r = (m0, g0) # (m1, g1) # others"
  shows "sp_candidates_loop r (a, f) bucket =
    (if rs_sp_hash r = m0
     then Inr (a \<or> (\<exists>sp \<in> set bucket. sp_reward_chain_sp sp = m1), f \<or> bucket \<noteq> [])
     else Inr (a, f))"
  using assms
  by (induction bucket arbitrary: a f) auto

lemma resolve_is_sp_signatures_two:
  assumes "rs_message_signatures r = (m0, g0) # (m1, g1) # others" and "bucket \<noteq> []"
  shows "resolve_is_sp_signatures bucket r =
    (if rs_sp_hash r = m0
     then (if \<exists>sp \<in> set bucket. sp_reward_chain_sp sp = m1 then Inr True
           else Inl AssertionError)
     else Inr False)"
  using assms
  by (simp add: resolve_is_sp_signatures_def sp_candidates_loop_two)

lemma sp_signatures_loop_broadcasts:
  assumes "sp_signatures_loop x s r pospace idx (m0, g0) (m1, g1) sks = (out, s')"
    and "rs_message_signatures r = (m0, g0) # (m1, g1) # others"
  shows "\<exists>new. effects s' = effects s @ new \<and>
    (\<forall>msg \<in> set (full_node_broadcasts new).
       \<exists>sk \<in> set sks. get_g1 x sk = rs_farmer_pk r \<and> aggregates_verify x r sk
          \<and> carries_aggregates x r sk msg)
    \<and> ((\<forall>sk \<in> set sks. get_g1 x sk = rs_farmer_pk r \<longrightarrow> \<not> aggregates_verify x r sk) \<longrightarrow>
         new = [])"
  using assms
proof (induction sks)
  case Nil
  then show ?case by simp
next
  case (Cons sk sks)
  show ?case
  proof (cases "get_g1 x sk = rs_farmer_pk r")
    case False
    then have "sp_signatures_loop x s r pospace idx (m0, g0) (m1, g1) sks = (out, s')"
      using Cons.prems by simp
    from Cons.IH [OF this Cons.prems(2)] False show ?thesis by auto
  next
    case True
    show ?thesis
    proof (cases "aggregates_verify x r sk")
      case False
      then have "s' = s" using Cons.prems True
        by (auto simp add: aggregates_verify_def Let_def split: if_splits)
      then show ?thesis using True False by simp
    next
      case v: True
      have "effects s' = effects s \<or>
        (\<exists>d. effects s' = effects s @ [StateChanged ''proof'',
                 SendToAll (DeclareProofOfSpaceMsg d) FULL_NODE]
            \<and> carries_aggregates x r sk (DeclareProofOfSpaceMsg d))"
        using Cons.prems True
        by (auto simp add: Let_def emit_def log_add_def split: if_splits option.splits)
      then show ?thesis
      proof
        assume "effects s' = effects s"
        then show ?thesis using v True by auto
      next
        assume "\<exists>d. effects s' = effects s @ [StateChanged ''proof'',
                 SendToAll (DeclareProofOfSpaceMsg d) FULL_NODE]
            \<and> carries_aggregates x r sk (DeclareProofOfSpaceMsg d)"
        then obtain d where d: "effects s' = effects s @ [StateChanged ''proof'',
                 SendToAll (DeclareProofOfSpaceMsg d) FULL_NODE]"
          "carries_aggregates x r sk (DeclareProofOfSpaceMsg d)"
          by blast
        show ?thesis
        proof (intro exI conjI)
          show "effects s' = effects s @ [StateChanged ''proof'',
                 SendToAll (DeclareProofOfSpaceMsg d) FULL_NODE]"
            by (rule d)
          show "\<forall>msg \<in> set (full_node_broadcasts [StateChanged ''proof'',
                 SendToAll (DeclareProofOfSpaceMsg d) FULL_NODE]).
              \<exists>sk \<in> set (sk # sks). get_g1 x sk = rs_farmer_pk r \<and> aggregates_verify x r sk
                \<and> carries_aggregates x r sk msg"
            using d True v by simp
          show "(\<forall>sk \<in> set (sk # sks). get_g1 x sk = rs_farmer_pk r \<longrightarrow>
                   \<not> aggregates_verify x r sk) \<longrightarrow>
              [StateChanged ''proof'', SendToAll (DeclareProofOfSpaceMsg d) FULL_NODE] = []"
            using True v by simp
        qed
      qed
    qed
  qed
qed

lemma block_signatures_loop_broadcasts:
  assumes "block_signatures_loop x s r pospace q sks = (out, s')"
  shows "\<exists>new. effects s' = effects s @ new \<and>
    (\<forall>msg \<in> set (full_node_broadcasts new).
       \<exists>sk \<in> set sks. get_g1 x sk = rs_farmer_pk r \<and> aggregates_verify x r sk
          \<and> carries_aggregates x r sk msg)
    \<and> ((\<forall>sk \<in> set sks. get_g1 x sk = rs_farmer_pk r \<longrightarrow> \<not> aggregates_verify x r sk) \<longrightarrow>
         new = [])"
  using assms
proof (induction sks arbitrary: s)
  case Nil
  then show ?case by simp
next
  case (Cons sk sks)
  show ?case
  proof (cases "\<exists>m0 g0 m1 g1 others. rs_message_signatures r = (m0, g0) # (m1, g1) # others")
    case False
    then have "s' = s" using Cons.prems
      by (auto split: list.splits)
    moreover have "\<not> aggregates_verify x r k" for k
      using False by (auto simp add: aggregates_verify_def split: list.splits)
    ultimately show ?thesis by simp
  next
    case True
    then obtain m0 g0 m1 g1 others where
      ms: "rs_message_signatures r = (m0, g0) # (m1, g1) # others" by blast
    show ?thesis
    proof (cases "get_g1 x sk = rs_farmer_pk r")
      case False
      then have "block_signatures_loop x s r pospace q sks = (out, s')"
        using Cons.prems ms by simp
      from Cons.IH [OF this] False show ?thesis by auto
    next
      case k: True
      show ?thesis
      proof (cases "aggregates_verify x r sk
          \<and> generate_plot_public_key x (rs_local_pk r) (rs_farmer_pk r) = pos_plot_public_key pospace")
        case False
        then have "s' = s" using Cons.prems k ms
          by (auto simp add: aggregates_verify_def Let_def split: if_splits)
        moreover have "aggregates_verify x r sk \<Longrightarrow> \<exists>k \<in> set (sk # sks).
            get_g1 x k = rs_farmer_pk r \<and> aggregates_verify x r k"
          using k by auto
        ultimately show ?thesis by auto
      next
        case v: True
        define agg_pk where "agg_pk = generate_plot_public_key x (rs_local_pk r) (rs_farmer_pk r)"
        define sv where "sv =
          \<lparr>sv_quality_string = q,
           sv_foliage_block_data_signature =
             AugSchemeMPL_aggregate x [g0, AugSchemeMPL_sign_prepend x sk m0 agg_pk],
           sv_foliage_transaction_block_signature =
             AugSchemeMPL_aggregate x [g1, AugSchemeMPL_sign_prepend x sk m1 agg_pk]\<rparr>"
        have rec: "block_signatures_loop x (emit (SendToAll (SignedValuesMsg sv) FULL_NODE) s)
            r pospace q sks = (out, s')"
          using Cons.prems k ms v
          by (auto simp add: aggregates_verify_def Let_def sv_def agg_pk_def split: if_splits)
        from Cons.IH [OF rec] obtain new where
          n: "effects s' = effects (emit (SendToAll (SignedValuesMsg sv) FULL_NODE) s) @ new"
            "\<forall>msg \<in> set (full_node_broadcasts new).
               \<exists>sk \<in> set sks. get_g1 x sk = rs_farmer_pk r \<and> aggregates_verify x r sk
                  \<and> carries_aggregates x r sk msg"
          by blast
        have c: "carries_aggregates x r sk (SignedValuesMsg sv)"
          using ms by (simp add: sv_def agg_pk_def Let_def)
        show ?thesis
        proof (intro exI conjI)
          show "effects s' = effects s @ (SendToAll (SignedValuesMsg sv) FULL_NODE # new)"
            using n(1) by (simp add: emit_def)
          show "\<forall>msg \<in> set (full_node_broadcasts
                  (SendToAll (SignedValuesMsg sv) FULL_NODE # new)).
              \<exists>sk \<in> set (sk # sks). get_g1 x sk = rs_farmer_pk r \<and> aggregates_verify x r sk
                \<and> carries_aggregates x r sk msg"
            using n(2) c k v by auto
          show "(\<forall>sk \<in> set (sk # sks). get_g1 x sk = rs_farmer_pk r \<longrightarrow>
                   \<not> aggregates_verify x r sk) \<longrightarrow>
              SendToAll (SignedValuesMsg sv) FULL_NODE # new = []"
            using k v by simp
        qed
      qed
    qed
  qed
qed

lemma respond_signatures_cases:
  assumes "respond_signatures x s r = (out, s')"
  shows "effects s' = effects s
    \<or> (\<exists>pospace idx cc rc others. rs_message_signatures r = cc # rc # others
          \<and> sp_signatures_loop x s r pospace idx cc rc (private_keys s) = (out, s'))
    \<or> (\<exists>pospace q. block_signatures_loop x s r pospace q (private_keys s) = (out, s'))"
  using assms
  by (auto simp add: respond_signatures_def Let_def log_add_def
      split: option.splits list.splits sum.splits if_splits)

text \<open>
  C1. Whatever \<open>respond_signatures\<close> broadcasts to the full nodes while it handles a
  response is a DeclareProofOfSpace or a SignedValues that carries the two aggregates
  built, with a local private key whose public key is the response's farmer key, from the
  harvester's two shares; and both aggregates verify against the plot public key combined
  from the response's local key and that farmer key. When for every such private key one
  of the two aggregates fails verification (a corrupted share), the handler causes no
  effect at all: nothing is broadcast.
\<close>

theorem respond_signatures_broadcasts_verified:
  assumes "respond_signatures x s r = (out, s')"
  shows "\<exists>new. effects s' = effects s @ new \<and>
    (\<forall>msg \<in> set (full_node_broadcasts new).
       \<exists>sk \<in> set (private_keys s). get_g1 x sk = rs_farmer_pk r \<and> aggregates_verify x r sk
          \<and> carries_aggregates x r sk msg)
    \<and> ((\<forall>sk \<in> set (private_keys s). get_g1 x sk = rs_farmer_pk r \<longrightarrow>
           \<not> aggregates_verify x r sk) \<longrightarrow> new = [])"
proof -
  from respond_signatures_cases [OF assms]
  consider (same) "effects s' = effects s"
    | (sp) pospace idx cc rc others where "rs_message_signatures r = cc # rc # others"
        "sp_signatures_loop x s r pospace idx cc rc (private_keys s) = (out, s')"
    | (block) pospace q where "block_signatures_loop x s r pospace q (private_keys s) = (out, s')"
    by blast
  then show ?thesis
  proof cases
    case same
    then show ?thesis by simp
  next
    case sp
    obtain m0 g0 where cc: "cc = (m0, g0)" by (cases cc)
    obtain m1 g1 where rc: "rc = (m1, g1)" by (cases rc)
    from sp_signatures_loop_broadcasts [of x s r pospace idx m0 g0 m1 g1 "private_keys s" out s' others]
      sp cc rc
    show ?thesis by simp
  next
    case block
    from block_signatures_loop_broadcasts [OF block] show ?thesis .
  qed
qed

theorem respond_signatures_broadcasts_verified_witness:
  "full_node_broadcasts
     (effects (snd (respond_signatures demo_ext demo_farmer_with_proof demo_response))) =
     [DeclareProofOfSpaceMsg
        \<lparr>dp_challenge_hash = ''ch'', dp_challenge_chain_sp = ''cc'', dp_signage_point_index = 3,
         dp_reward_chain_sp = ''rc'', dp_proof_of_space = demo_pos,
         dp_challenge_chain_sp_signature = ''s'', dp_reward_chain_sp_signature = ''s'',
         dp_farmer_puzzle_hash = ''farmer_target'',
         dp_pool_target = Some \<lparr>pt_puzzle_hash = ''pool_target'', pt_max_height = 0\<rparr>,
         dp_pool_signature = Some ''s''\<rparr>]
   \<and> aggregates_verify demo_ext demo_response ''fk''
   \<and> effects (snd (respond_signatures demo_ext demo_farmer_with_proof
        (demo_response\<lparr>rs_message_signatures := [(''cc'', ''x''), (''rc'', ''s'')]\<rparr>))) = []"
proof -
  let ?bad = "demo_response\<lparr>rs_message_signatures := [(''cc'', ''x''), (''rc'', ''s'')]\<rparr>"
  obtain out s' where st: "respond_signatures demo_ext demo_farmer_with_proof demo_response = (out, s')"
    by (cases "respond_signatures demo_ext demo_farmer_with_proof demo_response")
  obtain out2 s2 where st2: "respond_signatures demo_ext demo_farmer_with_proof ?bad = (out2, s2)"
    by (cases "respond_signatures demo_ext demo_farmer_with_proof ?bad")
  have e0: "effects demo_farmer_with_proof = []" "private_keys demo_farmer_with_proof = [''fk'']"
    by (simp_all add: demo_farmer_with_proof_def demo_farmer_def)
  have eff: "effects s' =
     [StateChanged ''proof'',
      SendToAll (DeclareProofOfSpaceMsg
        \<lparr>dp_challenge_hash = ''ch'', dp_challenge_chain_sp = ''cc'', dp_signage_point_index = 3,
         dp_reward_chain_sp = ''rc'', dp_proof_of_space = demo_pos,
         dp_challenge_chain_sp_signature = ''s'', dp_reward_chain_sp_signature = ''s'',
         dp_farmer_puzzle_hash = ''farmer_target'',
         dp_pool_target = Some \<lparr>pt_puzzle_hash = ''pool_target'', pt_max_height = 0\<rparr>,
         dp_pool_signature = Some ''s''\<rparr>) FULL_NODE]"
    using st
    by (auto simp add: respond_signatures_def resolve_is_sp_signatures_def Let_def
        demo_farmer_with_proof_def demo_farmer_def demo_response_def demo_sp_def demo_pos_def
        demo_ext_def emit_def log_add_def)
  from respond_signatures_broadcasts_verified [OF st] eff e0
  have v: "aggregates_verify demo_ext demo_response ''fk''"
    by auto
  have nv: "\<not> aggregates_verify demo_ext ?bad ''fk''"
    by (simp add: aggregates_verify_def demo_response_def demo_ext_def)
  from respond_signatures_broadcasts_verified [OF st2] nv e0
  have "effects s2 = []" by auto
  then show ?thesis using eff v st st2 by simp
qed

text \<open>
  The claim that every response which is not a signage-point response is treated as a
  block-signature response fails: a response whose first signed message is the
  \<open>sp_hash\<close> and whose second is the reward-chain value of no registered signage point
  ends in the \<open>assert is_sp_signatures\<close> of line 142.
\<close>

theorem is_sp_signatures_resolution_counterexample:
  "respond_signatures demo_ext demo_farmer_with_proof
     (demo_response\<lparr>rs_message_signatures := [(''cc'', ''s''), (''zz'', ''s'')]\<rparr>)
   = (Raised AssertionError, demo_farmer_with_proof)"
  by (simp add: respond_signatures_def resolve_is_sp_signatures_def Let_def
      demo_farmer_with_proof_def demo_response_def demo_sp_def)

text \<open>
  C5, amended. For a response with at least two signed messages whose \<open>sp_hash\<close> is a
  key with a non-empty bucket: \<open>is_sp_signatures\<close> is resolved to true exactly when the
  first signed message is the \<open>sp_hash\<close> and the second is the reward-chain value of
  some signage point of the bucket, and to false exactly when the first signed message
  is not the \<open>sp_hash\<close>; when the first is the \<open>sp_hash\<close> and the second matches no
  signage point of the bucket, the handler raises \<open>AssertionError\<close> and leaves the
  state as it was. With the proof recorded and verified, the handler then runs the
  signage-point branch in the first case and the block-signature branch in the second.
\<close>

theorem is_sp_signatures_resolution:
  assumes "sps s (rs_sp_hash r) = Some (first_sp # later_sps)"
    and "rs_message_signatures r = (m0, g0) # (m1, g1) # others"
  shows "(resolve_is_sp_signatures (first_sp # later_sps) r = Inr True \<longleftrightarrow>
        rs_sp_hash r = m0 \<and> (\<exists>sp \<in> set (first_sp # later_sps). sp_reward_chain_sp sp = m1))
    \<and> (resolve_is_sp_signatures (first_sp # later_sps) r = Inr False \<longleftrightarrow> rs_sp_hash r \<noteq> m0)
    \<and> (resolve_is_sp_signatures (first_sp # later_sps) r = Inl AssertionError \<longleftrightarrow>
        rs_sp_hash r = m0 \<and> (\<forall>sp \<in> set (first_sp # later_sps). sp_reward_chain_sp sp \<noteq> m1))
    \<and> (rs_sp_hash r = m0 \<and> (\<forall>sp \<in> set (first_sp # later_sps). sp_reward_chain_sp sp \<noteq> m1) \<longrightarrow>
        respond_signatures x s r = (Raised AssertionError, s))
    \<and> (\<forall>recorded pospace q.
          proofs_of_space s (rs_sp_hash r) = Some recorded
          \<and> find_pospace (rs_plot_identifier r) None recorded = Some pospace
          \<and> verify_and_get_quality_string x pospace (constants s) (rs_challenge_hash r)
              (rs_sp_hash r) = Some q \<longrightarrow>
          respond_signatures x s r =
            (if rs_sp_hash r = m0
             then (if \<exists>sp \<in> set (first_sp # later_sps). sp_reward_chain_sp sp = m1
                   then sp_signatures_loop x s r pospace (sp_signage_point_index first_sp)
                          (m0, g0) (m1, g1) (private_keys s)
                   else (Raised AssertionError, s))
             else block_signatures_loop x s r pospace q (private_keys s)))"
proof -
  note res = resolve_is_sp_signatures_two [OF assms(2), of "first_sp # later_sps", simplified]
  have 1: "resolve_is_sp_signatures (first_sp # later_sps) r = Inr True \<longleftrightarrow>
        rs_sp_hash r = m0 \<and> (\<exists>sp \<in> set (first_sp # later_sps). sp_reward_chain_sp sp = m1)"
    by (auto simp add: res)
  have 2: "resolve_is_sp_signatures (first_sp # later_sps) r = Inr False \<longleftrightarrow> rs_sp_hash r \<noteq> m0"
    by (auto simp add: res)
  have 3: "resolve_is_sp_signatures (first_sp # later_sps) r = Inl AssertionError \<longleftrightarrow>
        rs_sp_hash r = m0 \<and> (\<forall>sp \<in> set (first_sp # later_sps). sp_reward_chain_sp sp \<noteq> m1)"
    by (auto simp add: res)
  have 4: "respond_signatures x s r = (Raised AssertionError, s)"
    if "rs_sp_hash r = m0 \<and> (\<forall>sp \<in> set (first_sp # later_sps). sp_reward_chain_sp sp \<noteq> m1)"
    using that 3 assms(1) by (simp add: respond_signatures_def)
  have 5: "respond_signatures x s r =
            (if rs_sp_hash r = m0
             then (if \<exists>sp \<in> set (first_sp # later_sps). sp_reward_chain_sp sp = m1
                   then sp_signatures_loop x s r pospace (sp_signage_point_index first_sp)
                          (m0, g0) (m1, g1) (private_keys s)
                   else (Raised AssertionError, s))
             else block_signatures_loop x s r pospace q (private_keys s))"
    if "proofs_of_space s (rs_sp_hash r) = Some recorded
          \<and> find_pospace (rs_plot_identifier r) None recorded = Some pospace
          \<and> verify_and_get_quality_string x pospace (constants s) (rs_challenge_hash r)
              (rs_sp_hash r) = Some q" for recorded pospace q
  proof (cases "resolve_is_sp_signatures (first_sp # later_sps) r")
    case (Inl e)
    then show ?thesis using that assms res
      by (auto simp add: respond_signatures_def split: if_splits)
  next
    case (Inr b)
    then show ?thesis using that assms res
      by (auto simp add: respond_signatures_def split: if_splits)
  qed
  show ?thesis using 1 2 3 4 5 by blast
qed

theorem is_sp_signatures_resolution_witness:
  "sps demo_farmer_with_proof (rs_sp_hash demo_response) = Some [demo_sp]
   \<and> resolve_is_sp_signatures [demo_sp] demo_response = Inr True
   \<and> resolve_is_sp_signatures [demo_sp]
        (demo_response\<lparr>rs_message_signatures := [(''f1'', ''s''), (''f2'', ''s'')]\<rparr>) = Inr False
   \<and> resolve_is_sp_signatures [demo_sp]
        (demo_response\<lparr>rs_message_signatures := [(''cc'', ''s''), (''zz'', ''s'')]\<rparr>)
       = Inl AssertionError"
proof -
  let ?block = "demo_response\<lparr>rs_message_signatures := [(''f1'', ''s''), (''f2'', ''s'')]\<rparr>"
  let ?bad = "demo_response\<lparr>rs_message_signatures := [(''cc'', ''s''), (''zz'', ''s'')]\<rparr>"
  have k: "rs_sp_hash demo_response = ''cc''" "rs_sp_hash ?block = ''cc''" "rs_sp_hash ?bad = ''cc''"
    by (simp_all add: demo_response_def)
  have a: "sps demo_farmer_with_proof (rs_sp_hash demo_response) = Some [demo_sp]"
    "sps demo_farmer_with_proof (rs_sp_hash ?block) = Some [demo_sp]"
    "sps demo_farmer_with_proof (rs_sp_hash ?bad) = Some [demo_sp]"
    by (simp_all add: k demo_farmer_with_proof_def)
  have b: "rs_message_signatures demo_response = [(''cc'', ''s''), (''rc'', ''s'')]"
    by (simp add: demo_response_def)
  have b2: "rs_message_signatures ?block = [(''f1'', ''s''), (''f2'', ''s'')]" by simp
  have b3: "rs_message_signatures ?bad = [(''cc'', ''s''), (''zz'', ''s'')]" by simp
  have rc: "sp_reward_chain_sp demo_sp = ''rc''" by (simp add: demo_sp_def)
  from is_sp_signatures_resolution [OF a(1) b, of demo_ext]
  have 1: "resolve_is_sp_signatures [demo_sp] demo_response = Inr True"
    by (simp add: k rc)
  from is_sp_signatures_resolution [OF a(2) b2, of demo_ext]
  have 2: "resolve_is_sp_signatures [demo_sp] ?block = Inr False"
    by (simp add: k)
  from is_sp_signatures_resolution [OF a(3) b3, of demo_ext]
  have 3: "resolve_is_sp_signatures [demo_sp] ?bad = Inl AssertionError"
    by (simp add: k rc)
  show ?thesis using a(1) 1 2 3 by blast
qed

subsection \<open>Missing keys and missing proofs\<close>

lemma sp_signatures_loop_skip:
  assumes "\<forall>sk \<in> set pre. get_g1 x sk \<noteq> rs_farmer_pk r"
  shows "sp_signatures_loop x s r pospace idx cc rc (pre @ rest) =
    sp_signatures_loop x s r pospace idx cc rc rest"
  using assms by (induction pre) simp_all

lemma sp_signatures_loop_no_key:
  assumes "\<forall>sk \<in> set sks. get_g1 x sk \<noteq> rs_farmer_pk r"
  shows "sp_signatures_loop x s r pospace idx cc rc sks = (Returned None, s)"
  using sp_signatures_loop_skip [OF assms, where rest = "[]"] by simp

lemma block_signatures_loop_no_key:
  assumes "\<forall>sk \<in> set sks. get_g1 x sk \<noteq> rs_farmer_pk r"
    and "rs_message_signatures r = (m0, g0) # (m1, g1) # others"
  shows "block_signatures_loop x s r pospace q sks = (Returned None, s)"
  using assms by (induction sks) simp_all

lemma sp_signatures_loop_no_pool_key:
  assumes "get_g1 x sk = rs_farmer_pk r"
    and "generate_plot_public_key x (rs_local_pk r) (rs_farmer_pk r) = pos_plot_public_key pospace"
    and "rs_message_signatures r = (m0, g0) # (m1, g1) # others"
    and "aggregates_verify x r sk"
    and "pos_pool_public_key pospace = Some pool_pk"
    and "pos_pool_contract_puzzle_hash pospace = None"
    and "pool_sks_map s pool_pk = None"
  shows "sp_signatures_loop x s r pospace idx (m0, g0) (m1, g1) (sk # post) =
    (Returned None,
     s\<lparr>log := log s @
        [(ERROR, ''Don't have the private key for the pool key used by harvester'')]\<rparr>)"
  using assms
  by (auto simp add: aggregates_verify_def Let_def log_add_def)

lemma pool_plot_signature_no_key:
  assumes "\<forall>sk \<in> set sks. get_g1 x sk \<noteq> rs_farmer_pk r"
  shows "pool_plot_signature x r pospace m harv_sig acc sks = Inr acc"
  using assms by (induction sks) simp_all

lemma respond_signatures_found:
  assumes "sps s (rs_sp_hash r) = Some (first_sp # later_sps)"
    and "resolve_is_sp_signatures (first_sp # later_sps) r = Inr is_sp"
    and "rs_message_signatures r = (m0, g0) # (m1, g1) # others"
    and "proofs_of_space s (rs_sp_hash r) = Some recorded"
    and "find_pospace (rs_plot_identifier r) None recorded = Some pospace"
    and "verify_and_get_quality_string x pospace (constants s) (rs_challenge_hash r)
           (rs_sp_hash r) = Some q"
  shows "respond_signatures x s r =
    (if is_sp
     then sp_signatures_loop x s r pospace (sp_signage_point_index first_sp) (m0, g0) (m1, g1)
            (private_keys s)
     else block_signatures_loop x s r pospace q (private_keys s))"
  using assms by (simp add: respond_signatures_def)

lemma respond_signatures_no_key:
  assumes "sps s (rs_sp_hash r) = Some (first_sp # later_sps)"
    and "resolve_is_sp_signatures (first_sp # later_sps) r = Inr is_sp"
    and "rs_message_signatures r = (m0, g0) # (m1, g1) # others"
    and "proofs_of_space s (rs_sp_hash r) = Some recorded"
    and "find_pospace (rs_plot_identifier r) None recorded = Some pospace"
    and "verify_and_get_quality_string x pospace (constants s) (rs_challenge_hash r)
           (rs_sp_hash r) = Some q"
    and "\<forall>sk \<in> set (private_keys s). get_g1 x sk \<noteq> rs_farmer_pk r"
  shows "respond_signatures x s r = (Returned None, s)"
  using respond_signatures_found [OF assms(1-6)]
    sp_signatures_loop_no_key [OF assms(7)] block_signatures_loop_no_key [OF assms(7) assms(3)]
  by simp

lemma respond_signatures_no_pool_key:
  assumes "sps s (rs_sp_hash r) = Some (first_sp # later_sps)"
    and "resolve_is_sp_signatures (first_sp # later_sps) r = Inr True"
    and "rs_message_signatures r = (m0, g0) # (m1, g1) # others"
    and "proofs_of_space s (rs_sp_hash r) = Some recorded"
    and "find_pospace (rs_plot_identifier r) None recorded = Some pospace"
    and "verify_and_get_quality_string x pospace (constants s) (rs_challenge_hash r)
           (rs_sp_hash r) = Some q"
    and "private_keys s = pre @ sk # post"
    and "\<forall>k \<in> set pre. get_g1 x k \<noteq> rs_farmer_pk r"
    and "get_g1 x sk = rs_farmer_pk r"
    and "generate_plot_public_key x (rs_local_pk r) (rs_farmer_pk r) = pos_plot_public_key pospace"
    and "aggregates_verify x r sk"
    and "pos_pool_public_key pospace = Some pool_pk"
    and "pos_pool_contract_puzzle_hash pospace = None"
    and "pool_sks_map s pool_pk = None"
  shows "respond_signatures x s r =
    (Returned None,
     s\<lparr>log := log s @
        [(ERROR, ''Don't have the private key for the pool key used by harvester'')]\<rparr>)"
  using respond_signatures_found [OF assms(1-6)]
    sp_signatures_loop_skip [OF assms(8), where rest = "sk # post"]
    sp_signatures_loop_no_pool_key [OF assms(9) assms(10) assms(3) assms(11-14)]
  by (simp add: assms(7))

lemma respond_signatures_no_proof:
  assumes "sps s (rs_sp_hash r) = Some (first_sp # later_sps)"
    and "resolve_is_sp_signatures (first_sp # later_sps) r = Inr is_sp"
  shows "(proofs_of_space s (rs_sp_hash r) = None \<longrightarrow>
        respond_signatures x s r = (Raised KeyError, s))
    \<and> (\<forall>recorded. proofs_of_space s (rs_sp_hash r) = Some recorded
          \<and> find_pospace (rs_plot_identifier r) None recorded = None \<longrightarrow>
        respond_signatures x s r = (Raised AssertionError, s))"
  using assms by (simp add: respond_signatures_def)

lemma pool_partial_no_key:
  assumes "calculate_iterations_quality x (DIFFICULTY_CONSTANT_FACTOR (constants s)) q
        (pos_size (np_proof m)) (pool_difficulty s) (np_sp_hash m) < iters_limit s"
    and "request =
        \<lparr>rq_plot_identifier = np_plot_identifier m,
         rq_challenge_hash = np_challenge_hash m,
         rq_sp_hash = np_sp_hash m,
         rq_messages =
           [get_hash x
              \<lparr>pp_proof_of_space = np_proof m,
               pp_difficulty = pool_difficulty s,
               pp_sp_hash = np_sp_hash m,
               pp_end_of_sub_slot = (np_signage_point_index m = 0),
               pp_payout_address = pool_payout_address s\<rparr>]\<rparr>"
    and "peer_request_signatures x (peer_node_id peer) request = RespondSignaturesReply response"
    and "rs_message_signatures response = [(signed_message, harv_sig)]"
    and "\<forall>sk \<in> set (private_keys s). get_g1 x sk \<noteq> rs_farmer_pk response"
    and "pool_sks_map s pk = Some pool_sk"
  shows "process_new_proof_of_space_for_pool x now s m peer pk q =
    (Raised AssertionError,
     s\<lparr>effects := effects s @ [PeerRequestSignatures (peer_node_id peer) request]\<rparr>)"
  using assms(1,3,4,6) pool_plot_signature_no_key [OF assms(5)]
  unfolding assms(2)
  by (simp add: process_new_proof_of_space_for_pool_def pool_partial_prepare_def Let_def
      emit_def)

lemma resolve_is_sp_signatures_passes:
  assumes "rs_message_signatures r = (m0, g0) # (m1, g1) # others"
    and "rs_sp_hash r \<noteq> m0
         \<or> (\<exists>sp \<in> set (first_sp # later_sps). sp_reward_chain_sp sp = m1)"
  shows "resolve_is_sp_signatures (first_sp # later_sps) r = Inr (rs_sp_hash r = m0)"
  using assms(2) resolve_is_sp_signatures_two [OF assms(1), of "first_sp # later_sps"]
  by auto

text \<open>
  The claim that a response for which no proof is recorded is logged and dropped without
  an exception fails: \<open>proofs_of_space[sp_hash]\<close> raises \<open>KeyError\<close> when the key has
  no list of proofs, and \<open>assert pospace is not None\<close> raises \<open>AssertionError\<close> when
  the list has no entry for the plot identifier.
\<close>

theorem missing_material_counterexample:
  "respond_signatures demo_ext (demo_farmer\<lparr>sps := [''cc'' \<mapsto> [demo_sp]]\<rparr>) demo_response
     = (Raised KeyError, demo_farmer\<lparr>sps := [''cc'' \<mapsto> [demo_sp]]\<rparr>)
   \<and> respond_signatures demo_ext demo_farmer_with_proof
       (demo_response\<lparr>rs_plot_identifier := ''plot2''\<rparr>)
     = (Raised AssertionError, demo_farmer_with_proof)"
  by (simp add: respond_signatures_def resolve_is_sp_signatures_def Let_def
      demo_farmer_with_proof_def demo_farmer_def demo_response_def demo_sp_def)

text \<open>
  C2, amended. Take a RespondSignatures whose \<open>sp_hash\<close> is a key with a non-empty
  bucket, which carries at least two signed messages, and which passes the assertion of
  line 142: its first signed message is not the \<open>sp_hash\<close>, or its second is the
  reward-chain value of a signage point of the bucket. (A response that fails that
  assertion raises \<open>AssertionError\<close> whatever else holds.)
  \<^item> With the proof recorded under the plot identifier and verifying: when no local
    private key has the declared farmer public key, the handler returns \<open>None\<close> and
    leaves the state as it was (nothing is logged, nothing is sent).
  \<^item> In the signage-point branch (first message the \<open>sp_hash\<close>, second matching),
    with the proof recorded and verifying: when the first private key with the declared
    farmer public key gives the proof's plot public key and two aggregates that verify,
    the proof has a pool public key and no pool contract puzzle hash, and
    \<open>pool_sks_map\<close> has no entry for that pool public key, the handler logs an ERROR,
    sends nothing and returns \<open>None\<close>.
  \<^item> When the key has no list of proofs, the handler raises \<open>KeyError\<close>; when the
    list has no entry for the plot identifier, it raises \<open>AssertionError\<close>; the state
    is as it was in both cases.
  \<^item> In the pool path, when the required iterations are below \<open>iters_limit\<close>, the
    harvester answers the signature request with a RespondSignatures of exactly one
    signed message whose farmer key no local private key has, and the pool's
    authentication key is present, the handler raises \<open>AssertionError\<close>; the state is
    as it was but for the signature request made, and nothing is submitted.
\<close>

theorem missing_material_outcomes:
  "(sps s (rs_sp_hash r) = Some (first_sp # later_sps)
      \<and> rs_message_signatures r = (m0, g0) # (m1, g1) # others
      \<and> (rs_sp_hash r \<noteq> m0
           \<or> (\<exists>sp \<in> set (first_sp # later_sps). sp_reward_chain_sp sp = m1))
      \<and> proofs_of_space s (rs_sp_hash r) = Some recorded
      \<and> find_pospace (rs_plot_identifier r) None recorded = Some pospace
      \<and> verify_and_get_quality_string x pospace (constants s) (rs_challenge_hash r)
           (rs_sp_hash r) = Some q
      \<and> (\<forall>sk \<in> set (private_keys s). get_g1 x sk \<noteq> rs_farmer_pk r) \<longrightarrow>
    respond_signatures x s r = (Returned None, s))
   \<and> (sps s (rs_sp_hash r) = Some (first_sp # later_sps)
      \<and> rs_message_signatures r = (m0, g0) # (m1, g1) # others
      \<and> rs_sp_hash r = m0
      \<and> (\<exists>sp \<in> set (first_sp # later_sps). sp_reward_chain_sp sp = m1)
      \<and> proofs_of_space s (rs_sp_hash r) = Some recorded
      \<and> find_pospace (rs_plot_identifier r) None recorded = Some pospace
      \<and> verify_and_get_quality_string x pospace (constants s) (rs_challenge_hash r)
           (rs_sp_hash r) = Some q
      \<and> private_keys s = pre @ sk # post
      \<and> (\<forall>k \<in> set pre. get_g1 x k \<noteq> rs_farmer_pk r)
      \<and> get_g1 x sk = rs_farmer_pk r
      \<and> generate_plot_public_key x (rs_local_pk r) (rs_farmer_pk r) = pos_plot_public_key pospace
      \<and> aggregates_verify x r sk
      \<and> pos_pool_public_key pospace = Some pool_pk
      \<and> pos_pool_contract_puzzle_hash pospace = None
      \<and> pool_sks_map s pool_pk = None \<longrightarrow>
    respond_signatures x s r =
      (Returned None,
       s\<lparr>log := log s @
          [(ERROR, ''Don't have the private key for the pool key used by harvester'')]\<rparr>))
   \<and> (sps s (rs_sp_hash r) = Some (first_sp # later_sps)
      \<and> rs_message_signatures r = (m0, g0) # (m1, g1) # others
      \<and> (rs_sp_hash r \<noteq> m0
           \<or> (\<exists>sp \<in> set (first_sp # later_sps). sp_reward_chain_sp sp = m1))
      \<and> proofs_of_space s (rs_sp_hash r) = None \<longrightarrow>
    respond_signatures x s r = (Raised KeyError, s))
   \<and> (sps s (rs_sp_hash r) = Some (first_sp # later_sps)
      \<and> rs_message_signatures r = (m0, g0) # (m1, g1) # others
      \<and> (rs_sp_hash r \<noteq> m0
           \<or> (\<exists>sp \<in> set (first_sp # later_sps). sp_reward_chain_sp sp = m1))
      \<and> proofs_of_space s (rs_sp_hash r) = Some recorded
      \<and> find_pospace (rs_plot_identifier r) None recorded = None \<longrightarrow>
    respond_signatures x s r = (Raised AssertionError, s))
   \<and> (calculate_iterations_quality x (DIFFICULTY_CONSTANT_FACTOR (constants s)) cq
        (pos_size (np_proof m)) (pool_difficulty s) (np_sp_hash m) < iters_limit s
      \<and> request =
        \<lparr>rq_plot_identifier = np_plot_identifier m,
         rq_challenge_hash = np_challenge_hash m,
         rq_sp_hash = np_sp_hash m,
         rq_messages =
           [get_hash x
              \<lparr>pp_proof_of_space = np_proof m,
               pp_difficulty = pool_difficulty s,
               pp_sp_hash = np_sp_hash m,
               pp_end_of_sub_slot = (np_signage_point_index m = 0),
               pp_payout_address = pool_payout_address s\<rparr>]\<rparr>
      \<and> peer_request_signatures x (peer_node_id peer) request = RespondSignaturesReply response
      \<and> rs_message_signatures response = [(signed_message, harv_sig)]
      \<and> (\<forall>sk \<in> set (private_keys s). get_g1 x sk \<noteq> rs_farmer_pk response)
      \<and> pool_sks_map s pk = Some pool_sk \<longrightarrow>
    process_new_proof_of_space_for_pool x now s m peer pk cq =
      (Raised AssertionError,
       s\<lparr>effects := effects s @ [PeerRequestSignatures (peer_node_id peer) request]\<rparr>))"
proof (intro conjI impI)
  assume h: "sps s (rs_sp_hash r) = Some (first_sp # later_sps)
      \<and> rs_message_signatures r = (m0, g0) # (m1, g1) # others
      \<and> (rs_sp_hash r \<noteq> m0
           \<or> (\<exists>sp \<in> set (first_sp # later_sps). sp_reward_chain_sp sp = m1))
      \<and> proofs_of_space s (rs_sp_hash r) = Some recorded
      \<and> find_pospace (rs_plot_identifier r) None recorded = Some pospace
      \<and> verify_and_get_quality_string x pospace (constants s) (rs_challenge_hash r)
           (rs_sp_hash r) = Some q
      \<and> (\<forall>sk \<in> set (private_keys s). get_g1 x sk \<noteq> rs_farmer_pk r)"
  then have "resolve_is_sp_signatures (first_sp # later_sps) r = Inr (rs_sp_hash r = m0)"
    using resolve_is_sp_signatures_passes [of r m0 g0 m1 g1 others first_sp later_sps] by blast
  then show "respond_signatures x s r = (Returned None, s)"
    using h respond_signatures_no_key [of s r first_sp later_sps "rs_sp_hash r = m0" m0 g0 m1 g1
        others recorded pospace x q]
    by blast
next
  assume h: "sps s (rs_sp_hash r) = Some (first_sp # later_sps)
      \<and> rs_message_signatures r = (m0, g0) # (m1, g1) # others
      \<and> rs_sp_hash r = m0
      \<and> (\<exists>sp \<in> set (first_sp # later_sps). sp_reward_chain_sp sp = m1)
      \<and> proofs_of_space s (rs_sp_hash r) = Some recorded
      \<and> find_pospace (rs_plot_identifier r) None recorded = Some pospace
      \<and> verify_and_get_quality_string x pospace (constants s) (rs_challenge_hash r)
           (rs_sp_hash r) = Some q
      \<and> private_keys s = pre @ sk # post
      \<and> (\<forall>k \<in> set pre. get_g1 x k \<noteq> rs_farmer_pk r)
      \<and> get_g1 x sk = rs_farmer_pk r
      \<and> generate_plot_public_key x (rs_local_pk r) (rs_farmer_pk r) = pos_plot_public_key pospace
      \<and> aggregates_verify x r sk
      \<and> pos_pool_public_key pospace = Some pool_pk
      \<and> pos_pool_contract_puzzle_hash pospace = None
      \<and> pool_sks_map s pool_pk = None"
  then have "resolve_is_sp_signatures (first_sp # later_sps) r = Inr (rs_sp_hash r = m0)"
    using resolve_is_sp_signatures_passes [of r m0 g0 m1 g1 others first_sp later_sps] by blast
  then have "resolve_is_sp_signatures (first_sp # later_sps) r = Inr True" using h by simp
  then show "respond_signatures x s r =
      (Returned None,
       s\<lparr>log := log s @
          [(ERROR, ''Don't have the private key for the pool key used by harvester'')]\<rparr>)"
    using h respond_signatures_no_pool_key [of s r first_sp later_sps m0 g0 m1 g1 others recorded
        pospace x q pre sk post pool_pk]
    by (elim conjE) simp
next
  assume h: "sps s (rs_sp_hash r) = Some (first_sp # later_sps)
      \<and> rs_message_signatures r = (m0, g0) # (m1, g1) # others
      \<and> (rs_sp_hash r \<noteq> m0
           \<or> (\<exists>sp \<in> set (first_sp # later_sps). sp_reward_chain_sp sp = m1))
      \<and> proofs_of_space s (rs_sp_hash r) = None"
  then have "resolve_is_sp_signatures (first_sp # later_sps) r = Inr (rs_sp_hash r = m0)"
    using resolve_is_sp_signatures_passes [of r m0 g0 m1 g1 others first_sp later_sps] by blast
  then show "respond_signatures x s r = (Raised KeyError, s)"
    using h respond_signatures_no_proof [of s r first_sp later_sps "rs_sp_hash r = m0" x]
    by blast
next
  assume h: "sps s (rs_sp_hash r) = Some (first_sp # later_sps)
      \<and> rs_message_signatures r = (m0, g0) # (m1, g1) # others
      \<and> (rs_sp_hash r \<noteq> m0
           \<or> (\<exists>sp \<in> set (first_sp # later_sps). sp_reward_chain_sp sp = m1))
      \<and> proofs_of_space s (rs_sp_hash r) = Some recorded
      \<and> find_pospace (rs_plot_identifier r) None recorded = None"
  then have "resolve_is_sp_signatures (first_sp # later_sps) r = Inr (rs_sp_hash r = m0)"
    using resolve_is_sp_signatures_passes [of r m0 g0 m1 g1 others first_sp later_sps] by blast
  then show "respond_signatures x s r = (Raised AssertionError, s)"
    using h respond_signatures_no_proof [of s r first_sp later_sps "rs_sp_hash r = m0" x]
    by blast
next
  assume "calculate_iterations_quality x (DIFFICULTY_CONSTANT_FACTOR (constants s)) cq
        (pos_size (np_proof m)) (pool_difficulty s) (np_sp_hash m) < iters_limit s
      \<and> request =
        \<lparr>rq_plot_identifier = np_plot_identifier m,
         rq_challenge_hash = np_challenge_hash m,
         rq_sp_hash = np_sp_hash m,
         rq_messages =
           [get_hash x
              \<lparr>pp_proof_of_space = np_proof m,
               pp_difficulty = pool_difficulty s,
               pp_sp_hash = np_sp_hash m,
               pp_end_of_sub_slot = (np_signage_point_index m = 0),
               pp_payout_address = pool_payout_address s\<rparr>]\<rparr>
      \<and> peer_request_signatures x (peer_node_id peer) request = RespondSignaturesReply response
      \<and> rs_message_signatures response = [(signed_message, harv_sig)]
      \<and> (\<forall>sk \<in> set (private_keys s). get_g1 x sk \<noteq> rs_farmer_pk response)
      \<and> pool_sks_map s pk = Some pool_sk"
  then show "process_new_proof_of_space_for_pool x now s m peer pk cq =
      (Raised AssertionError,
       s\<lparr>effects := effects s @ [PeerRequestSignatures (peer_node_id peer) request]\<rparr>)"
    using pool_partial_no_key [of x s cq m request peer response signed_message harv_sig pk
        pool_sk now]
    by blast
qed

theorem missing_material_outcomes_witness:
  "respond_signatures demo_ext (demo_farmer_with_proof\<lparr>private_keys := [''other'']\<rparr>)
       demo_response
     = (Returned None, demo_farmer_with_proof\<lparr>private_keys := [''other'']\<rparr>)
   \<and> respond_signatures demo_ext (demo_farmer_with_proof\<lparr>pool_sks_map := Map.empty\<rparr>)
       demo_response
     = (Returned None,
        demo_farmer_with_proof\<lparr>pool_sks_map := Map.empty,
          log := [(ERROR, ''Don't have the private key for the pool key used by harvester'')]\<rparr>)
   \<and> respond_signatures demo_ext demo_farmer_with_proof
       (demo_response\<lparr>rs_plot_identifier := ''plot2''\<rparr>)
     = (Raised AssertionError, demo_farmer_with_proof)
   \<and> process_new_proof_of_space_for_pool demo_ext 5 (demo_farmer\<lparr>private_keys := [''other'']\<rparr>)
       demo_new_pos demo_peer ''poolpk'' ''q1''
     = (Raised AssertionError,
        demo_farmer\<lparr>private_keys := [''other''],
          effects := [PeerRequestSignatures ''harvester''
            \<lparr>rq_plot_identifier = ''plot1'', rq_challenge_hash = ''ch'', rq_sp_hash = ''cc'',
             rq_messages = [''h'']\<rparr>]\<rparr>)"
proof -
  let ?sA = "demo_farmer_with_proof\<lparr>private_keys := [''other'']\<rparr>"
  let ?sB = "demo_farmer_with_proof\<lparr>pool_sks_map := Map.empty\<rparr>"
  let ?rC = "demo_response\<lparr>rs_plot_identifier := ''plot2''\<rparr>"
  let ?sD = "demo_farmer\<lparr>private_keys := [''other'']\<rparr>"
  let ?req = "\<lparr>rq_plot_identifier = ''plot1'', rq_challenge_hash = ''ch'', rq_sp_hash = ''cc'',
             rq_messages = [''h'']\<rparr>"
  let ?resp = "\<lparr>rs_plot_identifier = ''plot1'', rs_challenge_hash = ''ch'', rs_sp_hash = ''cc'',
           rs_local_pk = ''lk'', rs_farmer_pk = ''fk'',
           rs_message_signatures = [(''h'', ''s'')]\<rparr>"
  have res: "sp_reward_chain_sp demo_sp = ''rc''" by (simp add: demo_sp_def)
  have av: "aggregates_verify demo_ext demo_response ''fk''"
    by (simp add: aggregates_verify_def demo_response_def demo_ext_def)
  have A: "respond_signatures demo_ext ?sA demo_response = (Returned None, ?sA)"
    using missing_material_outcomes [where x = demo_ext and s = ?sA and r = demo_response
        and first_sp = demo_sp and later_sps = "[]"
        and ?m0.0 = "''cc''" and ?g0.0 = "''s''" and ?m1.0 = "''rc''" and ?g1.0 = "''s''"
        and others = "[]" and recorded = "[(''plot1'', demo_pos)]" and pospace = demo_pos
        and q = "''q1''", THEN conjunct1] res
    by (simp add: demo_farmer_with_proof_def demo_farmer_def demo_response_def demo_ext_def
        demo_pos_def)
  have B: "respond_signatures demo_ext ?sB demo_response =
      (Returned None,
       ?sB\<lparr>log := log ?sB @
          [(ERROR, ''Don't have the private key for the pool key used by harvester'')]\<rparr>)"
    using missing_material_outcomes [where x = demo_ext and s = ?sB and r = demo_response
        and first_sp = demo_sp and later_sps = "[]"
        and ?m0.0 = "''cc''" and ?g0.0 = "''s''" and ?m1.0 = "''rc''" and ?g1.0 = "''s''"
        and others = "[]" and recorded = "[(''plot1'', demo_pos)]" and pospace = demo_pos
        and q = "''q1''" and pre = "[]" and sk = "''fk''" and post = "[]"
        and pool_pk = "''poolpk''", THEN conjunct2, THEN conjunct1] res av
    by (simp add: demo_farmer_with_proof_def demo_farmer_def demo_response_def demo_ext_def
        demo_pos_def)
  have C: "respond_signatures demo_ext demo_farmer_with_proof ?rC =
      (Raised AssertionError, demo_farmer_with_proof)"
    using missing_material_outcomes [where x = demo_ext and s = demo_farmer_with_proof
        and r = ?rC and first_sp = demo_sp and later_sps = "[]"
        and ?m0.0 = "''cc''" and ?g0.0 = "''s''" and ?m1.0 = "''rc''" and ?g1.0 = "''s''"
        and others = "[]" and recorded = "[(''plot1'', demo_pos)]",
        THEN conjunct2, THEN conjunct2, THEN conjunct2, THEN conjunct1] res
    by (simp add: demo_farmer_with_proof_def demo_farmer_def demo_response_def)
  have D: "process_new_proof_of_space_for_pool demo_ext 5 ?sD demo_new_pos demo_peer
        ''poolpk'' ''q1'' =
      (Raised AssertionError,
       ?sD\<lparr>effects := effects ?sD @ [PeerRequestSignatures (peer_node_id demo_peer) ?req]\<rparr>)"
    using missing_material_outcomes [where x = demo_ext and s = ?sD and m = demo_new_pos
        and cq = "''q1''" and request = ?req and peer = demo_peer and response = ?resp
        and signed_message = "''h''" and harv_sig = "''s''" and pk = "''poolpk''"
        and pool_sk = "''poolsk''" and now = 5,
        THEN conjunct2, THEN conjunct2, THEN conjunct2, THEN conjunct2]
    by (simp add: demo_farmer_def demo_new_pos_def demo_pos_def demo_ext_def demo_peer_def)
  have l: "log ?sB = []" "effects ?sD = []" "peer_node_id demo_peer = ''harvester''"
    by (simp_all add: demo_farmer_with_proof_def demo_farmer_def demo_peer_def)
  show ?thesis using A B C D by (simp add: l)
qed

end
